theory Spec2Isabelle
  imports Main "HOL-Library.Word" "HOL-Library.Multiset"
begin

section \<open>Group call members: rows, ordering and video routing\<close>

text \<open>
  A shallow embedding of \<^verbatim>\<open>calls/group/calls_group_members.cpp\<close>: the class
  \<^verbatim>\<open>Row\<close> and the parts of \<^verbatim>\<open>MembersController\<close> that keep the order of the rows,
  the raised-hand status timer and the video endpoint attached to every row.

  A peer (\<^verbatim>\<open>PeerData*\<close>, \<^verbatim>\<open>PeerListRowId\<close>) is a natural number, its identity; the
  place of the \<^verbatim>\<open>PeerData\<close> object in memory, which orders a set of peer pointers, is
  given by the function \<open>peerAddress\<close>. The list holds at most one row for a peer, so a
  pointer to a row of the list is modelled by the peer of the row wherever the code
  holds it only while the row is in the list. \<^verbatim>\<open>_videoEndpoints\<close> keeps its row pointers
  beyond that: every row object has an address of its own, a new one for every row that
  is created, and \<^verbatim>\<open>_videoEndpoints\<close> keeps addresses. An address whose row has left the
  list points to a destroyed object.
  \<^verbatim>\<open>crl::time\<close> is a number of milliseconds, an \<open>int\<close>; every handler that reads
  \<^verbatim>\<open>crl::now()\<close> takes the current time as an argument.
  Members that are used only for painting (animations, blobs, status icon, volume,
  about text) are left out.
\<close>

subsection \<open>Data\<close>

type_synonym peer_id = nat
type_synonym time = int
type_synonym endpoint = string

datatype State = Active | Inactive | Muted | RaisedHand | MutedByMe | Invited

text \<open>\<^verbatim>\<open>Data::GroupCall::Participant\<close>, the fields that the controller reads.\<close>

record participant =
  p_peer :: peer_id
  p_muted :: bool
  p_mutedByMe :: bool
  p_canSelfUnmute :: bool
  p_speaking :: bool
  p_sounding :: bool
  p_raisedHandRating :: "64 word"
  p_ssrc :: "32 word"
  p_cameraEndpoint :: endpoint
  p_screenEndpoint :: endpoint

text \<open>\<^verbatim>\<open>class Row\<close>; \<open>address\<close> is the address of the row object (\<^verbatim>\<open>Row*\<close>).\<close>

record row =
  address :: nat
  peer :: peer_id
  state :: State
  raisedHandRating :: "64 word"
  ssrc :: "32 word"
  sounding :: bool
  speaking :: bool
  raisedHandStatus :: bool
  videoTrackEndpoint :: endpoint

text \<open>
  The row that the constructor \<^verbatim>\<open>Row::Row\<close> builds at the address \<open>a\<close> (the member
  initialisers).
\<close>

definition newRow :: "nat \<Rightarrow> peer_id \<Rightarrow> row" where
  "newRow a p = \<lparr>address = a, peer = p, state = Inactive, raisedHandRating = 0, ssrc = 0,
     sounding = False, speaking = False, raisedHandStatus = False,
     videoTrackEndpoint = []\<rparr>"

subsection \<open>Row::setState and Row::updateState\<close>

text \<open>
  \<^verbatim>\<open>Row::setState\<close>. The second component tells whether the row called
  \<^verbatim>\<open>_delegate->rowScheduleRaisedHandStatusRemove(this)\<close>: exactly when the state
  changes from something else to \<^verbatim>\<open>RaisedHand\<close>.
\<close>

definition Row_setState :: "State \<Rightarrow> row \<Rightarrow> row \<times> bool" where
  "Row_setState s r =
     (if state r = s then (r, False)
      else
        let wasRaisedHand = (state r = RaisedHand);
            r1 = r\<lparr>state := s\<rparr>;
            nowRaisedHand = (state r1 = RaisedHand)
        in if \<not> wasRaisedHand \<and> nowRaisedHand
           then (r1\<lparr>raisedHandStatus := True\<rparr>, True)
           else (r1, False))"

definition Row_setSounding :: "bool \<Rightarrow> row \<Rightarrow> row" where
  "Row_setSounding b r = (if sounding r = b then r else r\<lparr>sounding := b\<rparr>)"

definition Row_setSpeaking :: "bool \<Rightarrow> row \<Rightarrow> row" where
  "Row_setSpeaking b r = (if speaking r = b then r else r\<lparr>speaking := b\<rparr>)"

text \<open>
  \<^verbatim>\<open>Row::updateState(const Participant *participant)\<close>; a null pointer is \<open>None\<close>.
  The branches are those of the source, in its order.
\<close>

definition Row_updateState :: "participant option \<Rightarrow> row \<Rightarrow> row \<times> bool" where
  "Row_updateState po r0 =
     (let r = r0\<lparr>ssrc := (case po of None \<Rightarrow> 0 | Some p \<Rightarrow> p_ssrc p)\<rparr>
      in case po of
           None \<Rightarrow>
             (let (r1, sch) = Row_setState Invited r;
                  r2 = Row_setSounding False r1;
                  r3 = Row_setSpeaking False r2
              in (r3\<lparr>raisedHandRating := 0\<rparr>, sch))
         | Some p \<Rightarrow>
             if \<not> p_muted p \<or> (p_sounding p \<and> p_ssrc p \<noteq> 0) then
               (let (r1, sch) = Row_setState (if p_mutedByMe p then MutedByMe else Active) r;
                    r2 = Row_setSounding (p_sounding p \<and> p_ssrc p \<noteq> 0) r1;
                    r3 = Row_setSpeaking (p_speaking p \<and> p_ssrc p \<noteq> 0) r2
                in (r3\<lparr>raisedHandRating := 0\<rparr>, sch))
             else if p_canSelfUnmute p then
               (let (r1, sch) = Row_setState (if p_mutedByMe p then MutedByMe else Inactive) r;
                    r2 = Row_setSounding False r1;
                    r3 = Row_setSpeaking False r2
                in (r3\<lparr>raisedHandRating := 0\<rparr>, sch))
             else
               (let r1 = r\<lparr>raisedHandRating := p_raisedHandRating p\<rparr>;
                    (r2, sch) = Row_setState
                       (if raisedHandRating r1 \<noteq> 0 then RaisedHand else Muted) r1;
                    r3 = Row_setSounding False r2;
                    r4 = Row_setSpeaking False r3
                in (r4, sch)))"

text \<open>
  The state-transition mapping in the words of the specification: the state, the
  sounding flag, the speaking flag and the rating that a participant update must give.
\<close>

definition spec_transition :: "participant option \<Rightarrow> State \<times> bool \<times> bool \<times> 64 word" where
  "spec_transition po =
     (case po of
        None \<Rightarrow> (Invited, False, False, 0)
      | Some p \<Rightarrow>
          if \<not> p_muted p \<or> (p_sounding p \<and> p_ssrc p \<noteq> 0)
          then (if p_mutedByMe p then MutedByMe else Active,
                if p_ssrc p = 0 then False else p_sounding p,
                if p_ssrc p = 0 then False else p_speaking p,
                0)
          else if p_canSelfUnmute p
          then (if p_mutedByMe p then MutedByMe else Inactive, False, False, 0)
          else (if 0 < p_raisedHandRating p then RaisedHand else Muted,
                False, False, p_raisedHandRating p))"

subsection \<open>The call and the controller\<close>

text \<open>
  What the controller reads from \<^verbatim>\<open>Data::GroupCall\<close> (\<^verbatim>\<open>real\<close> in the source) and from
  \<^verbatim>\<open>Calls::GroupCall\<close> (\<^verbatim>\<open>_call\<close> and \<^verbatim>\<open>_peer\<close>). Both classes are outside this
  file, so their answers are parameters of every handler:
  \<open>participantByEndpoint\<close> and \<open>streamsVideo\<close> are arbitrary functions. The
  \<^verbatim>\<open>PeerData\<close> objects belong to the session, which is outside this file as well:
  \<open>peerAddress\<close> gives the address of the object of a peer.
\<close>

record group_call =
  participants :: "participant list"
  participantByEndpoint :: "endpoint \<Rightarrow> participant option"
  joinedToTop :: bool

record call =
  lookupReal :: "group_call option"
  joinAs :: peer_id
  screenSharingEndpoint :: endpoint
  cameraSharingEndpoint :: endpoint
  streamsVideo :: "endpoint \<Rightarrow> bool"
  canManageGroupCall :: bool
  peerAddress :: "peer_id \<Rightarrow> nat"

text \<open>
  \<^verbatim>\<open>class MembersController\<close>: the rows of the list in display order (owned by the
  list delegate), \<^verbatim>\<open>_largeEndpoint\<close>, \<^verbatim>\<open>_menu\<close> (\<open>None\<close> is the null pointer),
  \<^verbatim>\<open>_menuCheckRowsAfterHidden\<close> (a \<^verbatim>\<open>base::flat_set\<close> of peer pointers: a vector sorted
  by the pointer values, without duplicates), \<^verbatim>\<open>_raisedHandStatusRemoveAt\<close> (a
  \<^verbatim>\<open>base::flat_map\<close>: a vector of pairs), \<^verbatim>\<open>_raisedHandStatusRemoveTimer\<close> (\<open>Some t\<close>:
  active, due at the time \<open>t\<close>), \<^verbatim>\<open>_soundingRowBySsrc\<close> and \<^verbatim>\<open>_videoEndpoints\<close> (from an
  endpoint to the address of a row object). \<open>nextAddress\<close> is the address that the next
  row object gets from \<^verbatim>\<open>std::make_unique\<close>: the addresses count the row objects that
  have been created, so that the address of a destroyed row is never the address of a
  later one.
\<close>

record controller =
  rows :: "row list"
  largeEndpoint :: endpoint
  menu :: "nat option"
  menuCheckRowsAfterHidden :: "peer_id list"
  raisedHandStatusRemoveAt :: "(peer_id \<times> time) list"
  raisedHandStatusRemoveTimer :: "time option"
  soundingRowBySsrc :: "32 word \<rightharpoonup> peer_id"
  videoEndpoints :: "(endpoint \<times> nat) list"
  nextAddress :: nat

definition kKeepRaisedHandStatusDuration :: time where
  "kKeepRaisedHandStatusDuration = 3 * 1000"

definition kTop :: "64 word" where
  "kTop = - 1"

subsection \<open>The list delegate\<close>

text \<open>\<^verbatim>\<open>MembersController::findRow\<close>, through \<^verbatim>\<open>peerListFindRow\<close>.\<close>

definition findRow :: "controller \<Rightarrow> peer_id \<Rightarrow> row option" where
  "findRow c p = find (\<lambda>r. peer r = p) (rows c)"

text \<open>Writing through a row pointer: the first row of the peer is replaced.\<close>

fun updateFirst :: "peer_id \<Rightarrow> (row \<Rightarrow> row) \<Rightarrow> row list \<Rightarrow> row list" where
  "updateFirst p f [] = []"
| "updateFirst p f (r # rs) = (if peer r = p then f r # rs else r # updateFirst p f rs)"

text \<open>\<^verbatim>\<open>PeerListRow::absoluteIndex\<close>: the position of the row in the list.\<close>

fun absoluteIndex :: "peer_id \<Rightarrow> row list \<Rightarrow> nat" where
  "absoluteIndex p [] = 0"
| "absoluteIndex p (r # rs) = (if peer r = p then 0 else Suc (absoluteIndex p rs))"

text \<open>
  Modelled from the spec: the generic list container (\<^verbatim>\<open>PeerListDelegate\<close>) is not in
  the sources. The specification gives it "insert-at-top/bottom, remove, and full
  resort", one row for an identity, and asks for a stable sort. \<open>insertRow\<close> puts a row
  into a sorted list, behind the rows that go before it by the comparator \<open>cmp\<close>
  (\<open>cmp a b\<close>: the row \<open>a\<close> goes before the row \<open>b\<close>) and in front of the others.
\<close>

fun insertRow :: "(row \<Rightarrow> row \<Rightarrow> bool) \<Rightarrow> row \<Rightarrow> row list \<Rightarrow> row list" where
  "insertRow cmp x [] = [x]"
| "insertRow cmp x (y # ys) =
     (if cmp y x then y # insertRow cmp x ys else x # y # ys)"

text \<open>
  Modelled from the spec: the full resort of the list container, \<^verbatim>\<open>peerListSortRows\<close>,
  which is not in the sources: a stable sort by insertion.
\<close>

fun peerListSortRows :: "(row \<Rightarrow> row \<Rightarrow> bool) \<Rightarrow> row list \<Rightarrow> row list" where
  "peerListSortRows cmp [] = []"
| "peerListSortRows cmp (x # xs) = insertRow cmp x (peerListSortRows cmp xs)"

text \<open>
  Modelled from the spec: \<^verbatim>\<open>peerListPartitionRows\<close> of the list container, which is not
  in the sources: the rows that satisfy the predicate are moved to the front, "keeping
  relative order".
\<close>

definition peerListPartitionRows :: "(row \<Rightarrow> bool) \<Rightarrow> row list \<Rightarrow> row list" where
  "peerListPartitionRows pred xs = filter pred xs @ filter (\<lambda>r. \<not> pred r) xs"

text \<open>
  Modelled from the spec: \<^verbatim>\<open>peerListAppendRow\<close> of the list container, which is not in
  the sources: the row goes to the bottom, unless the list has a row of that identity.
\<close>

definition peerListAppendRow :: "row \<Rightarrow> row list \<Rightarrow> row list" where
  "peerListAppendRow r xs = (if find (\<lambda>x. peer x = peer r) xs = None then xs @ [r] else xs)"

text \<open>
  Modelled from the spec: \<^verbatim>\<open>peerListPrependRow\<close> of the list container, which is not in
  the sources: the row goes to the top, unless the list has a row of that identity.
\<close>

definition peerListPrependRow :: "row \<Rightarrow> row list \<Rightarrow> row list" where
  "peerListPrependRow r xs = (if find (\<lambda>x. peer x = peer r) xs = None then r # xs else xs)"

text \<open>
  Modelled from the spec: \<^verbatim>\<open>peerListRemoveRow\<close> of the list container, which is not in
  the sources: the row of the identity leaves the list.
\<close>

definition peerListRemoveRow :: "peer_id \<Rightarrow> row list \<Rightarrow> row list" where
  "peerListRemoveRow p xs = filter (\<lambda>r. peer r \<noteq> p) xs"

subsection \<open>The raised-hand status timer\<close>

text \<open>\<^verbatim>\<open>Row::clearRaisedHandStatus\<close>.\<close>

definition clearRaisedHandStatus :: "row \<Rightarrow> row" where
  "clearRaisedHandStatus r = (if \<not> raisedHandStatus r then r else r\<lparr>raisedHandStatus := False\<rparr>)"

text \<open>
  The loop of \<^verbatim>\<open>scheduleRaisedHandStatusRemove\<close> over \<^verbatim>\<open>_raisedHandStatusRemoveAt\<close>:
  an entry that is due is erased, after the status of its row (when the list still has
  the row) is cleared; the others are kept and \<open>waiting\<close> becomes the smallest distance
  to one of them. The result is the entries kept, the rows and \<open>waiting\<close>.
\<close>

fun removeLoop ::
  "time \<Rightarrow> (peer_id \<times> time) list \<Rightarrow> row list \<Rightarrow> time \<Rightarrow> (peer_id \<times> time) list \<times> row list \<times> time"
where
  "removeLoop now [] rs waiting = ([], rs, waiting)"
| "removeLoop now ((i, at) # es) rs waiting =
     (if at \<le> now
      then removeLoop now es (updateFirst i clearRaisedHandStatus rs) waiting
      else
        (let waiting' = (if waiting = 0 \<or> waiting > at - now then at - now else waiting);
             (es', rs', w) = removeLoop now es rs waiting'
         in ((i, at) # es', rs', w)))"

text \<open>
  \<^verbatim>\<open>base::Timer\<close> is a library class: \<^verbatim>\<open>isActive\<close> holds from \<^verbatim>\<open>callOnce\<close> to the
  call of the callback, \<^verbatim>\<open>remainingTime\<close> is the distance to the due time, not below 0.
\<close>

definition remainingTime :: "time \<Rightarrow> time \<Rightarrow> time" where
  "remainingTime now due = (if due > now then due - now else 0)"

definition scheduleRaisedHandStatusRemove :: "time \<Rightarrow> controller \<Rightarrow> controller" where
  "scheduleRaisedHandStatusRemove now c =
     (let (es, rs, waiting) = removeLoop now (raisedHandStatusRemoveAt c) (rows c) 0;
          c1 = c\<lparr>rows := rs, raisedHandStatusRemoveAt := es\<rparr>
      in if waiting > 0
         then (case raisedHandStatusRemoveTimer c1 of
                 None \<Rightarrow> c1\<lparr>raisedHandStatusRemoveTimer := Some (now + waiting)\<rparr>
               | Some due \<Rightarrow>
                   if remainingTime now due > waiting
                   then c1\<lparr>raisedHandStatusRemoveTimer := Some (now + waiting)\<rparr>
                   else c1)
         else c1)"

text \<open>The entry of a key is overwritten, or added when the map has none.\<close>

fun flat_map_set :: "peer_id \<Rightarrow> time \<Rightarrow> (peer_id \<times> time) list \<Rightarrow> (peer_id \<times> time) list" where
  "flat_map_set k v [] = [(k, v)]"
| "flat_map_set k v ((k', v') # es) =
     (if k = k' then (k', v) # es
      else if k < k' then (k, v) # (k', v') # es
      else (k', v') # flat_map_set k v es)"

definition rowScheduleRaisedHandStatusRemove :: "time \<Rightarrow> peer_id \<Rightarrow> controller \<Rightarrow> controller" where
  "rowScheduleRaisedHandStatusRemove now i c =
     (let whn = now + kKeepRaisedHandStatusDuration
      in scheduleRaisedHandStatusRemove now
           (c\<lparr>raisedHandStatusRemoveAt := flat_map_set i whn (raisedHandStatusRemoveAt c)\<rparr>))"

text \<open>
  The timer fires: the timer is no longer active and its callback,
  \<^verbatim>\<open>scheduleRaisedHandStatusRemove\<close>, runs.
\<close>

definition raisedHandStatusRemoveTimerFired :: "time \<Rightarrow> controller \<Rightarrow> controller" where
  "raisedHandStatusRemoveTimerFired now c =
     scheduleRaisedHandStatusRemove now (c\<lparr>raisedHandStatusRemoveTimer := None\<rparr>)"

subsection \<open>Updating and removing a row\<close>

text \<open>
  \<^verbatim>\<open>MembersController::updateRow(row, participant)\<close> for a row object \<open>r\<close>, which may be
  a row that is not in the list yet. The row calls back
  \<^verbatim>\<open>rowScheduleRaisedHandStatusRemove\<close> from \<^verbatim>\<open>setState\<close>; the callback changes
  the controller and the status of rows whose entry is due, never \<open>r\<close> itself, whose
  entry it has just set to a later time. \<^verbatim>\<open>Assert(nowSsrc != 0)\<close> cannot fail, since
  \<^verbatim>\<open>updateState\<close> sets the sounding flag only with a nonzero ssrc.
\<close>

definition emplace :: "'k \<Rightarrow> 'v \<Rightarrow> ('k \<rightharpoonup> 'v) \<Rightarrow> ('k \<rightharpoonup> 'v)" where
  "emplace k v m = (if m k = None then m(k \<mapsto> v) else m)"

definition updateRowObject ::
  "time \<Rightarrow> participant option \<Rightarrow> row \<Rightarrow> controller \<Rightarrow> row \<times> controller" where
  "updateRowObject now po r c =
     (let wasSounding = sounding r;
          wasSsrc = ssrc r;
          (r', sch) = Row_updateState po r;
          c1 = (if sch then rowScheduleRaisedHandStatusRemove now (peer r) c else c);
          nowSounding = sounding r';
          nowSsrc = ssrc r';
          m = soundingRowBySsrc c1;
          m' = (if wasSsrc = nowSsrc
                then (if nowSounding \<noteq> wasSounding
                      then (if nowSounding then emplace nowSsrc (peer r) m
                            else m(nowSsrc := None))
                      else m)
                else (let m1 = m(wasSsrc := None)
                      in if nowSounding then emplace nowSsrc (peer r) m1 else m1))
      in (r', c1\<lparr>soundingRowBySsrc := m'\<rparr>))"

text \<open>The same for a row of the list: the row is written back in its place.\<close>

definition updateRowInList ::
  "time \<Rightarrow> participant option \<Rightarrow> row \<Rightarrow> controller \<Rightarrow> controller" where
  "updateRowInList now po r c =
     (let (r', c1) = updateRowObject now po r c
      in c1\<lparr>rows := updateFirst (peer r) (\<lambda>_. r') (rows c1)\<rparr>)"

text \<open>\<^verbatim>\<open>MembersController::removeRow\<close>.\<close>

definition removeRow :: "row \<Rightarrow> controller \<Rightarrow> controller" where
  "removeRow r c =
     c\<lparr>soundingRowBySsrc := (soundingRowBySsrc c)(ssrc r := None),
       rows := peerListRemoveRow (peer r) (rows c)\<rparr>"

subsection \<open>The order of the rows\<close>

text \<open>
  The loops of \<^verbatim>\<open>allRowsAboveAreSpeaking\<close> and \<^verbatim>\<open>allRowsAboveMoreImportantThanHand\<close>
  walk the list from the top; \<open>p\<close> is the row that is checked. The second one is called
  with a rating above 0 only (its \<^verbatim>\<open>Expects\<close>).
\<close>

fun allRowsAboveAreSpeaking :: "peer_id \<Rightarrow> row list \<Rightarrow> bool" where
  "allRowsAboveAreSpeaking p [] = False"
| "allRowsAboveAreSpeaking p (r # rest) =
     (if peer r = p then True
      else if \<not> speaking r then False
      else allRowsAboveAreSpeaking p rest)"

fun allRowsAboveMoreImportantThanHand :: "peer_id \<Rightarrow> 64 word \<Rightarrow> row list \<Rightarrow> bool" where
  "allRowsAboveMoreImportantThanHand p raiseHandRating [] = False"
| "allRowsAboveMoreImportantThanHand p raiseHandRating (r # rest) =
     (if peer r = p then True
      else if state r = Muted
              \<or> (state r = RaisedHand \<and> raisedHandRating r < raiseHandRating)
      then False
      else allRowsAboveMoreImportantThanHand p raiseHandRating rest)"

text \<open>\<^verbatim>\<open>MembersController::needToReorder\<close> for the row \<open>r\<close> of the list \<open>rs\<close>.\<close>

definition needToReorder :: "call \<Rightarrow> row list \<Rightarrow> row \<Rightarrow> bool" where
  "needToReorder cl rs r =
     (if speaking r then \<not> allRowsAboveAreSpeaking (peer r) rs
      else if \<not> canManageGroupCall cl then False
      else
        (let rating = raisedHandRating r
         in if rating = 0 \<and> state r \<noteq> Muted then False
            else if 0 < rating \<and> \<not> allRowsAboveMoreImportantThanHand (peer r) rating rs then True
            else
              (let index = absoluteIndex (peer r) rs
               in if index + 1 = length rs then False
                  else
                    (let nxt = rs ! (index + 1)
                     in if state nxt \<noteq> Muted \<and> state nxt \<noteq> RaisedHand then True
                        else if rating = 0 \<and> raisedHandRating nxt \<noteq> 0 then True
                        else False))))"

text \<open>The two projections of \<^verbatim>\<open>checkRowPosition\<close>; \<open>p\<close> is the row that is checked.\<close>

definition projForAdmin :: "peer_id \<Rightarrow> row \<Rightarrow> 64 word" where
  "projForAdmin p real =
     (if speaking real then (if peer real = p then kTop else kTop - 1)
      else if 0 < raisedHandRating real then raisedHandRating real
      else if state real = Muted then (if peer real = p then 1 else 0)
      else kTop - 2)"

definition projForOther :: "peer_id \<Rightarrow> row \<Rightarrow> 64 word" where
  "projForOther p real =
     (if speaking real then (if peer real = p then kTop else kTop - 1) else 0)"

definition makeComparator :: "(row \<Rightarrow> 64 word) \<Rightarrow> row \<Rightarrow> row \<Rightarrow> bool" where
  "makeComparator proj a b = (proj a > proj b)"

text \<open>
  A key is added to a \<^verbatim>\<open>base::flat_set\<close> at its place in the order of the keys. The
  keys of \<^verbatim>\<open>_menuCheckRowsAfterHidden\<close> are peer pointers, compared by their values:
  \<open>addr\<close> gives the address of the object of a peer. A pointer that the set holds
  already is not added again.
\<close>

fun flat_set_emplace :: "(peer_id \<Rightarrow> nat) \<Rightarrow> peer_id \<Rightarrow> peer_id list \<Rightarrow> peer_id list" where
  "flat_set_emplace addr x [] = [x]"
| "flat_set_emplace addr x (y # ys) =
     (if addr x = addr y then y # ys
      else if addr x < addr y then x # y # ys
      else y # flat_set_emplace addr x ys)"

text \<open>
  \<^verbatim>\<open>MembersController::checkRowPosition\<close>; the row pointer is the peer \<open>p\<close> of a row of
  the list (for a peer without a row nothing is done).
\<close>

definition checkRowPosition :: "call \<Rightarrow> peer_id \<Rightarrow> controller \<Rightarrow> controller" where
  "checkRowPosition cl p c =
     (if menu c \<noteq> None
      then c\<lparr>menuCheckRowsAfterHidden :=
               flat_set_emplace (peerAddress cl) p (menuCheckRowsAfterHidden c)\<rparr>
      else
        (case findRow c p of
           None \<Rightarrow> c
         | Some r \<Rightarrow>
             if \<not> needToReorder cl (rows c) r then c
             else c\<lparr>rows := peerListSortRows
                        (if canManageGroupCall cl
                         then makeComparator (projForAdmin p)
                         else makeComparator (projForOther p))
                        (rows c)\<rparr>))"

text \<open>
  The callback that \<^verbatim>\<open>rowClicked\<close> gives to \<^verbatim>\<open>peerListShowRowMenu\<close>, called with the
  menu \<open>m\<close> that is destroyed: for the current menu, \<^verbatim>\<open>_menu\<close> is taken (so that the
  checks are not queued again), the set \<^verbatim>\<open>_menuCheckRowsAfterHidden\<close> is taken and walked
  in its own order, and \<^verbatim>\<open>_menu\<close> is put back.
\<close>

definition checkIfRow :: "call \<Rightarrow> peer_id \<Rightarrow> controller \<Rightarrow> controller" where
  "checkIfRow cl p c = (case findRow c p of None \<Rightarrow> c | Some r \<Rightarrow> checkRowPosition cl p c)"

definition rowMenuDestroyed :: "call \<Rightarrow> nat \<Rightarrow> controller \<Rightarrow> controller" where
  "rowMenuDestroyed cl m c =
     (if menu c = None \<or> menu c \<noteq> Some m then c
      else
        (let saved = menu c;
             c1 = c\<lparr>menu := None\<rparr>;
             queued = menuCheckRowsAfterHidden c1;
             c2 = c1\<lparr>menuCheckRowsAfterHidden := []\<rparr>;
             c3 = fold (checkIfRow cl) queued c2
         in c3\<lparr>menu := saved\<rparr>))"

text \<open>
  The sort keys in the words of the specification, for the row \<open>trigger\<close> that
  triggered the check: the privileged and the unprivileged variant.
\<close>

definition spec_key_privileged :: "peer_id \<Rightarrow> row \<Rightarrow> 64 word" where
  "spec_key_privileged trigger r =
     (if speaking r \<and> peer r = trigger then kTop
      else if speaking r then kTop - 1
      else if 0 < raisedHandRating r then raisedHandRating r
      else if state r = Muted \<and> peer r = trigger then 1
      else if state r = Muted then 0
      else kTop - 2)"

definition spec_key_unprivileged :: "peer_id \<Rightarrow> row \<Rightarrow> 64 word" where
  "spec_key_unprivileged trigger r =
     (if speaking r \<and> peer r = trigger then kTop
      else if speaking r then kTop - 1
      else 0)"

definition spec_key :: "call \<Rightarrow> peer_id \<Rightarrow> row \<Rightarrow> 64 word" where
  "spec_key cl trigger r =
     (if canManageGroupCall cl then spec_key_privileged trigger r
      else spec_key_unprivileged trigger r)"

text \<open>
  \<^verbatim>\<open>MembersController::createRow\<close> and
  \<^verbatim>\<open>MembersController::updateRow(was, now)\<close>, the handler of a participant update
  with a participant record. \<open>checkPosition\<close> and \<open>addedToBottom\<close> are row pointers,
  \<open>None\<close> for the null pointer. The new row object is made at the address
  \<open>nextAddress\<close>.
\<close>

definition createRow :: "time \<Rightarrow> participant \<Rightarrow> controller \<Rightarrow> row \<times> controller" where
  "createRow tnow participant c =
     updateRowObject tnow (Some participant) (newRow (nextAddress c) (p_peer participant))
       (c\<lparr>nextAddress := Suc (nextAddress c)\<rparr>)"

definition joinedProj :: "peer_id \<Rightarrow> row \<Rightarrow> nat" where
  "joinedProj addedToBottom real =
     (if speaking real then 2 else if peer real = addedToBottom then 1 else 0)"

definition updateRow ::
  "time \<Rightarrow> call \<Rightarrow> participant option \<Rightarrow> participant \<Rightarrow> controller \<Rightarrow> controller" where
  "updateRow tnow cl was now c =
     (let (reorderIfInvitedBefore, checkPosition, addedToBottom, c1) =
            (case findRow c (p_peer now) of
               Some r \<Rightarrow>
                 (let count = (if state r = Invited
                                then int (absoluteIndex (peer r) (rows c)) else 0);
                      c' = updateRowInList tnow (Some now) r c
                  in if (p_speaking now \<and> (case was of None \<Rightarrow> True | Some w \<Rightarrow> \<not> p_speaking w))
                        \<or> p_raisedHandRating now
                             \<noteq> (case was of None \<Rightarrow> 0 | Some w \<Rightarrow> p_raisedHandRating w)
                        \<or> (\<not> p_canSelfUnmute now
                             \<and> (case was of None \<Rightarrow> False | Some w \<Rightarrow> p_canSelfUnmute w))
                     then (count, Some (peer r), None, c')
                     else (count, None, None, c'))
             | None \<Rightarrow>
                 (let (r, c') = createRow tnow now c
                  in if speaking r
                     then (0, None, None, c'\<lparr>rows := peerListPrependRow r (rows c')\<rparr>)
                     else
                       (let count = int (length (rows c'));
                            c'' = c'\<lparr>rows := peerListAppendRow r (rows c')\<rparr>
                        in if p_raisedHandRating now \<noteq> 0
                           then (count, Some (peer r), None, c'')
                           else (count, None, Some (peer r), c''))));
          reorder = (if reorderIfInvitedBefore \<le> 0 then False
                     else state (rows c1 ! nat (reorderIfInvitedBefore - 1)) = Invited);
          c2 = (if reorder
                then c1\<lparr>rows := peerListPartitionRows (\<lambda>r. state r \<noteq> Invited) (rows c1)\<rparr>
                else c1)
      in case checkPosition of
           Some p \<Rightarrow> checkRowPosition cl p c2
         | None \<Rightarrow>
             (case addedToBottom of
                None \<Rightarrow> c2
              | Some p \<Rightarrow>
                  (case lookupReal cl of
                     None \<Rightarrow> c2
                   | Some real \<Rightarrow>
                       if joinedToTop real
                       then c2\<lparr>rows := peerListSortRows
                                 (\<lambda>a b. joinedProj p a > joinedProj p b) (rows c2)\<rparr>
                       else c2)))"

text \<open>
  The handler of \<^verbatim>\<open>real->participantUpdated()\<close> in \<^verbatim>\<open>subscribeToChanges\<close> for an update
  without \<^verbatim>\<open>now\<close>: the participant \<open>was\<close> has left the call. The row of the local
  user (\<^verbatim>\<open>isMe\<close>) is updated without a participant record, the row of another peer is
  removed.
\<close>

definition participantRemoved :: "time \<Rightarrow> call \<Rightarrow> participant \<Rightarrow> controller \<Rightarrow> controller" where
  "participantRemoved tnow cl was c =
     (case findRow c (p_peer was) of
        None \<Rightarrow> c
      | Some r \<Rightarrow>
          if joinAs cl = p_peer was then updateRowInList tnow None r c
          else removeRow r c)"

subsection \<open>Video endpoints\<close>

text \<open>
  \<^verbatim>\<open>findParticipant\<close>, \<^verbatim>\<open>computeScreenEndpoint\<close> and \<^verbatim>\<open>computeCameraEndpoint\<close>.
\<close>

definition findParticipant :: "call \<Rightarrow> endpoint \<Rightarrow> participant option" where
  "findParticipant cl e =
     (if e = [] then None
      else
        (case lookupReal cl of
           None \<Rightarrow> None
         | Some real \<Rightarrow>
             if e = screenSharingEndpoint cl \<or> e = cameraSharingEndpoint cl
             then find (\<lambda>p. p_peer p = joinAs cl) (participants real)
             else participantByEndpoint real e))"

definition computeScreenEndpoint :: "call \<Rightarrow> participant \<Rightarrow> endpoint" where
  "computeScreenEndpoint cl participant =
     (if p_peer participant = joinAs cl then screenSharingEndpoint cl
      else p_screenEndpoint participant)"

definition computeCameraEndpoint :: "call \<Rightarrow> participant \<Rightarrow> endpoint" where
  "computeCameraEndpoint cl participant =
     (if p_peer participant = joinAs cl then cameraSharingEndpoint cl
      else p_cameraEndpoint participant)"

text \<open>
  \<^verbatim>\<open>_videoEndpoints\<close> is a \<^verbatim>\<open>base::flat_map\<close> from an endpoint to a row pointer, a
  vector of pairs with one pair for a key. The controller only looks keys up, removes a
  key and adds a key that the map does not have yet (\<^verbatim>\<open>emplace\<close>); it never walks the
  map, so the place of a new pair does not matter and the model puts it at the end.
\<close>

definition flat_map_remove :: "endpoint \<Rightarrow> (endpoint \<times> nat) list \<Rightarrow> (endpoint \<times> nat) list" where
  "flat_map_remove k m = filter (\<lambda>(k', v). k' \<noteq> k) m"

definition flat_map_emplace ::
  "endpoint \<Rightarrow> nat \<Rightarrow> (endpoint \<times> nat) list \<Rightarrow> (endpoint \<times> nat) list" where
  "flat_map_emplace k v m = (if map_of m k = None then m @ [(k, v)] else m)"

text \<open>
  Following a row pointer: the row of the list whose object is at the address \<open>a\<close>.
  \<open>None\<close>: the list has no such row, the object has been destroyed.
\<close>

definition derefRow :: "controller \<Rightarrow> nat \<Rightarrow> row option" where
  "derefRow c a = find (\<lambda>r. address r = a) (rows c)"

text \<open>
  \<^verbatim>\<open>MembersController::setRowVideoEndpoint\<close> for the row \<open>r\<close> of the list. Both
  \<^verbatim>\<open>Row::clearVideoTrack\<close> and \<^verbatim>\<open>Row::createVideoTrack\<close> set the endpoint of the row;
  the video track itself belongs to the media subsystem and is left out.
\<close>

definition setRowVideoEndpoint :: "row \<Rightarrow> endpoint \<Rightarrow> controller \<Rightarrow> controller" where
  "setRowVideoEndpoint r e c =
     (let was = videoTrackEndpoint r;
          m = videoEndpoints c;
          m' = (if was \<noteq> e
                then (let m1 = (if was \<noteq> [] then flat_map_remove was m else m)
                      in if e \<noteq> [] then flat_map_emplace e (address r) m1 else m1)
                else m)
      in c\<lparr>videoEndpoints := m',
           rows := updateFirst (peer r) (\<lambda>x. x\<lparr>videoTrackEndpoint := e\<rparr>) (rows c)\<rparr>)"

text \<open>
  The handler of \<^verbatim>\<open>_call->videoEndpointLargeValue()\<close> in \<^verbatim>\<open>setupListChangeViewers\<close>.
  Its first block, before \<^verbatim>\<open>_largeEndpoint\<close> is assigned, is \<open>restoreUnpinned\<close>; the
  block after the assignment is \<open>avoidPinned\<close>. The filter in front of the handler drops
  a value that equals \<^verbatim>\<open>_largeEndpoint\<close>.
\<close>

definition restoreUnpinned :: "call \<Rightarrow> controller \<Rightarrow> controller" where
  "restoreUnpinned cl c =
     (if streamsVideo cl (largeEndpoint c)
      then
        (case findParticipant cl (largeEndpoint c) of
           None \<Rightarrow> c
         | Some participant \<Rightarrow>
             (case findRow c (p_peer participant) of
                None \<Rightarrow> c
              | Some r \<Rightarrow>
                  (let current = videoTrackEndpoint r
                   in if current = []
                         \<or> (computeScreenEndpoint cl participant = largeEndpoint c
                             \<and> computeCameraEndpoint cl participant = current)
                      then setRowVideoEndpoint r (largeEndpoint c) c
                      else c)))
      else c)"

definition avoidPinned :: "call \<Rightarrow> controller \<Rightarrow> controller" where
  "avoidPinned cl c =
     (case findParticipant cl (largeEndpoint c) of
        None \<Rightarrow> c
      | Some participant \<Rightarrow>
          (case findRow c (p_peer participant) of
             None \<Rightarrow> c
           | Some r \<Rightarrow>
               if videoTrackEndpoint r = largeEndpoint c
               then
                 (let camera = computeCameraEndpoint cl participant;
                      screen = computeScreenEndpoint cl participant
                  in if largeEndpoint c = camera \<and> streamsVideo cl screen
                     then setRowVideoEndpoint r screen c
                     else if largeEndpoint c = screen \<and> streamsVideo cl camera
                     then setRowVideoEndpoint r camera c
                     else setRowVideoEndpoint r [] c)
               else c))"

definition videoEndpointLargeChanged :: "call \<Rightarrow> endpoint \<Rightarrow> controller \<Rightarrow> controller" where
  "videoEndpointLargeChanged cl e c =
     (if largeEndpoint c = e then c
      else avoidPinned cl ((restoreUnpinned cl c)\<lparr>largeEndpoint := e\<rparr>))"

text \<open>
  The handler of \<^verbatim>\<open>_call->streamsVideoUpdates()\<close>, for the update with the endpoint
  \<open>e\<close> and the flag \<open>streams\<close>. A failed \<^verbatim>\<open>Assert\<close> ends the program
  (\<open>AssertFailed\<close>). In its stream-down branch the handler follows the row pointer that
  \<^verbatim>\<open>_videoEndpoints\<close> has for \<open>e\<close> (\<^verbatim>\<open>row->peer()\<close>); when the row object has been
  destroyed, the handler reads freed memory and has no defined result (\<open>RowGone\<close>).
\<close>

datatype failure = AssertFailed | RowGone

definition streamsVideoUpdated ::
  "call \<Rightarrow> endpoint \<Rightarrow> bool \<Rightarrow> controller \<Rightarrow> failure + controller" where
  "streamsVideoUpdated cl e streams c =
     (if e = largeEndpoint c then Inl AssertFailed
      else if streams
      then Inr
        (case findParticipant cl e of
           None \<Rightarrow> c
         | Some participant \<Rightarrow>
             (case findRow c (p_peer participant) of
                None \<Rightarrow> c
              | Some r \<Rightarrow>
                  (let camera = computeCameraEndpoint cl participant;
                       screen = computeScreenEndpoint cl participant
                   in if e = camera \<and> (\<not> streamsVideo cl screen \<or> largeEndpoint c = screen)
                      then setRowVideoEndpoint r camera c
                      else if e = screen \<and> largeEndpoint c \<noteq> screen
                      then setRowVideoEndpoint r screen c
                      else c)))
      else
        (case map_of (videoEndpoints c) e of
           None \<Rightarrow> Inr c
         | Some rowAddress \<Rightarrow>
             (case lookupReal cl of
                None \<Rightarrow> Inl AssertFailed
              | Some real \<Rightarrow>
                  (case derefRow c rowAddress of
                     None \<Rightarrow> Inl RowGone
                   | Some r \<Rightarrow>
                       (case find (\<lambda>p. p_peer p = peer r) (participants real) of
                          None \<Rightarrow> Inr (setRowVideoEndpoint r [] c)
                        | Some j \<Rightarrow>
                            (let camera = computeCameraEndpoint cl j;
                                 screen = computeScreenEndpoint cl j
                             in if e = camera \<and> largeEndpoint c \<noteq> screen
                                   \<and> streamsVideo cl screen
                                then Inr (setRowVideoEndpoint r screen c)
                                else if e = screen \<and> largeEndpoint c \<noteq> camera
                                        \<and> streamsVideo cl camera
                                then Inr (setRowVideoEndpoint r camera c)
                                else Inr (setRowVideoEndpoint r [] c)))))))"

text \<open>
  Endpoint exclusivity: two rows that show the same endpoint, not the empty one, are the
  row of one peer. The reverse index is exact when it has one pair for a key, every pair
  of it has a key that is not empty and the address of the row that shows the key, and
  every row that shows an endpoint is found under that endpoint. The routing invariant
  adds that the rows of the list have different peers and different addresses.
\<close>

definition endpointsExclusive :: "controller \<Rightarrow> bool" where
  "endpointsExclusive c =
     list_all (\<lambda>x. list_all (\<lambda>y. videoTrackEndpoint x = []
          \<or> videoTrackEndpoint x \<noteq> videoTrackEndpoint y \<or> peer x = peer y) (rows c)) (rows c)"

definition indexExact :: "controller \<Rightarrow> bool" where
  "indexExact c =
     (distinct (map fst (videoEndpoints c))
      \<and> list_all (\<lambda>(e, a). e \<noteq> []
          \<and> map_option address (find (\<lambda>r. videoTrackEndpoint r = e) (rows c)) = Some a)
        (videoEndpoints c)
      \<and> list_all (\<lambda>r. videoTrackEndpoint r = []
          \<or> map_of (videoEndpoints c) (videoTrackEndpoint r) = Some (address r))
        (rows c))"

definition routingInvariant :: "controller \<Rightarrow> bool" where
  "routingInvariant c =
     (distinct (map peer (rows c)) \<and> distinct (map address (rows c))
      \<and> endpointsExclusive c \<and> indexExact c)"

text \<open>
  The call gives the endpoint \<open>e\<close> to the peer \<open>p\<close> when \<^verbatim>\<open>findParticipant\<close> finds the
  participant of \<open>p\<close> for it. The rows own their endpoints when every endpoint that a row
  shows is given to the peer of the row; a participant owns its endpoints when the call
  gives its camera and its screen endpoint, when it has them, to its own peer.
\<close>

definition ownedBy :: "call \<Rightarrow> endpoint \<Rightarrow> peer_id \<Rightarrow> bool" where
  "ownedBy cl e p = (case findParticipant cl e of None \<Rightarrow> False | Some q \<Rightarrow> p_peer q = p)"

definition rowsOwnEndpoints :: "call \<Rightarrow> controller \<Rightarrow> bool" where
  "rowsOwnEndpoints cl c =
     list_all (\<lambda>x. videoTrackEndpoint x = [] \<or> ownedBy cl (videoTrackEndpoint x) (peer x))
       (rows c)"

definition ownsItsEndpoints :: "call \<Rightarrow> participant \<Rightarrow> bool" where
  "ownsItsEndpoints cl q =
     ((computeCameraEndpoint cl q = [] \<or> ownedBy cl (computeCameraEndpoint cl q) (p_peer q))
      \<and> (computeScreenEndpoint cl q = [] \<or> ownedBy cl (computeScreenEndpoint cl q) (p_peer q)))"

definition routingState :: "call \<Rightarrow> controller \<Rightarrow> bool" where
  "routingState cl c = (routingInvariant c \<and> rowsOwnEndpoints cl c)"


text \<open>
  The endpoint that the row of the participant \<open>q\<close> gets in place of the newly pinned
  endpoint \<open>e\<close>: the screen when \<open>e\<close> is the camera and the screen is live, the camera
  when \<open>e\<close> is the screen and the camera is live, the empty endpoint otherwise.
\<close>

definition insteadOfPinned :: "call \<Rightarrow> endpoint \<Rightarrow> participant \<Rightarrow> endpoint" where
  "insteadOfPinned cl e q =
     (if e = computeCameraEndpoint cl q \<and> streamsVideo cl (computeScreenEndpoint cl q)
      then computeScreenEndpoint cl q
      else if e = computeScreenEndpoint cl q \<and> streamsVideo cl (computeCameraEndpoint cl q)
      then computeCameraEndpoint cl q
      else [])"

text \<open>The endpoint that the row of a peer shows; \<open>None\<close> when the peer has no row.\<close>

definition shownEndpoint :: "controller \<Rightarrow> peer_id \<Rightarrow> endpoint option" where
  "shownEndpoint c p = map_option videoTrackEndpoint (findRow c p)"

subsection \<open>The scenario of the specification\<close>

text \<open>
  An admin sees the rows Active, RaisedHand with rating 5, RaisedHand with rating 9 and
  Muted (the peers 1 to 4); nobody speaks, no menu is open. The row object of the peer
  \<open>p\<close> is at the address \<open>p\<close>, the next row object is made at the address 5, and
  the \<^verbatim>\<open>PeerData\<close> object of the peer \<open>p\<close> is at the address \<open>p\<close> as well.
\<close>

definition scenario_row :: "peer_id \<Rightarrow> State \<Rightarrow> 64 word \<Rightarrow> row" where
  "scenario_row p s rating = (newRow p p)\<lparr>state := s, raisedHandRating := rating\<rparr>"

definition scenario_controller :: controller where
  "scenario_controller =
     \<lparr>rows = [scenario_row 1 Active 0, scenario_row 2 RaisedHand 5,
              scenario_row 3 RaisedHand 9, scenario_row 4 Muted 0],
      largeEndpoint = [], menu = None, menuCheckRowsAfterHidden = [],
      raisedHandStatusRemoveAt = [], raisedHandStatusRemoveTimer = None,
      soundingRowBySsrc = Map.empty, videoEndpoints = [], nextAddress = 5\<rparr>"

definition scenario_call :: "bool \<Rightarrow> call" where
  "scenario_call admin =
     \<lparr>lookupReal = None, joinAs = 0, screenSharingEndpoint = [], cameraSharingEndpoint = [],
      streamsVideo = (\<lambda>_. False), canManageGroupCall = admin, peerAddress = (\<lambda>p. p)\<rparr>"

text \<open>The participant of the peer 4, force-muted, with a raised-hand rating.\<close>

definition scenario_participant :: "64 word \<Rightarrow> participant" where
  "scenario_participant rating =
     \<lparr>p_peer = 4, p_muted = True, p_mutedByMe = False, p_canSelfUnmute = False,
      p_speaking = False, p_sounding = False, p_raisedHandRating = rating, p_ssrc = 0,
      p_cameraEndpoint = [], p_screenEndpoint = []\<rparr>"

text \<open>The rows after the raise with the rating 7 has reached the row of the peer 4.\<close>

definition scenario_raised :: controller where
  "scenario_raised =
     scenario_controller\<lparr>rows := [scenario_row 1 Active 0, scenario_row 2 RaisedHand 5,
              scenario_row 3 RaisedHand 9, scenario_row 4 RaisedHand 7]\<rparr>"

text \<open>
  A list seen by a caller who cannot manage the call while the menu 0 is open: the row of
  the peer 3 does not speak, the rows of the peers 1 and 2 have started to speak.
\<close>

definition menu_controller :: controller where
  "menu_controller =
     scenario_controller\<lparr>rows := [scenario_row 3 Inactive 0,
              (scenario_row 1 Active 0)\<lparr>speaking := True\<rparr>,
              (scenario_row 2 Active 0)\<lparr>speaking := True\<rparr>],
        menu := Some 0\<rparr>"

text \<open>
  The same caller in a session that has the \<^verbatim>\<open>PeerData\<close> objects in the opposite
  order in memory: the object of the peer 2 is below the object of the peer 1.
\<close>

definition mirrored_call :: call where
  "mirrored_call = (scenario_call False)\<lparr>peerAddress := (\<lambda>p. 10 - p)\<rparr>"

text \<open>
  The same caller in a call that puts the participants who join on top
  (\<^verbatim>\<open>joinedToTop\<close>), and the participant of the peer 5, who joins while the menu is
  open: muted, able to unmute itself, with no raised hand.
\<close>

definition joined_call :: call where
  "joined_call =
     (scenario_call False)\<lparr>lookupReal :=
        Some \<lparr>participants = [], participantByEndpoint = (\<lambda>_. None), joinedToTop = True\<rparr>\<rparr>"

definition joining_participant :: participant where
  "joining_participant =
     \<lparr>p_peer = 5, p_muted = True, p_mutedByMe = False, p_canSelfUnmute = True,
      p_speaking = False, p_sounding = False, p_raisedHandRating = 0, p_ssrc = 0,
      p_cameraEndpoint = [], p_screenEndpoint = []\<rparr>"

text \<open>
  The scenario continued: the raise with the rating 7 reaches the controller at the time
  0; then the hand is lowered at the time 1000 and raised again at the time 2000.
\<close>

definition raised_controller :: controller where
  "raised_controller =
     updateRow 0 (scenario_call True) (Some (scenario_participant 0)) (scenario_participant 7)
       scenario_controller"

definition reraised_controller :: controller where
  "reraised_controller =
     updateRow 2000 (scenario_call True) (Some (scenario_participant 0)) (scenario_participant 7)
       (updateRow 1000 (scenario_call True) (Some (scenario_participant 7)) (scenario_participant 0)
          raised_controller)"

text \<open>
  A controller whose row of the peer 4 sounds with the ssrc 5, while the raised-hand
  status of that row is still to be removed at the time 3000.
\<close>

definition speaker_row :: row where
  "speaker_row = (scenario_row 4 Active 0)\<lparr>ssrc := 5, sounding := True, speaking := True\<rparr>"

definition speaker_controller :: controller where
  "speaker_controller =
     scenario_controller\<lparr>rows := [speaker_row, scenario_row 1 Active 0],
        raisedHandStatusRemoveAt := [(4, 3000)], raisedHandStatusRemoveTimer := Some 3000,
        soundingRowBySsrc := [5 \<mapsto> 4]\<rparr>"

text \<open>
  A call of the peer 1 with the given participants; \<open>live\<close> lists the endpoints that
  stream, and an endpoint belongs to the first participant that has it as camera or
  screen endpoint. In \<open>video_participants\<close> the peer 2 has the camera \<open>''cam2''\<close> and the
  screen \<open>''scr2''\<close>, the peer 3 has the camera \<open>''cam3''\<close> and no screen.
\<close>

definition video_participant :: "peer_id \<Rightarrow> endpoint \<Rightarrow> endpoint \<Rightarrow> participant" where
  "video_participant p camera screen =
     \<lparr>p_peer = p, p_muted = True, p_mutedByMe = False, p_canSelfUnmute = True,
      p_speaking = False, p_sounding = False, p_raisedHandRating = 0, p_ssrc = 0,
      p_cameraEndpoint = camera, p_screenEndpoint = screen\<rparr>"

definition video_participants :: "participant list" where
  "video_participants = [video_participant 2 ''cam2'' ''scr2'', video_participant 3 ''cam3'' []]"

definition video_call :: "participant list \<Rightarrow> endpoint list \<Rightarrow> call" where
  "video_call ps live =
     \<lparr>lookupReal = Some
        \<lparr>participants = ps,
         participantByEndpoint =
           (\<lambda>e. find (\<lambda>p. p_cameraEndpoint p = e \<or> p_screenEndpoint p = e) ps),
         joinedToTop = False\<rparr>,
      joinAs = 1, screenSharingEndpoint = [], cameraSharingEndpoint = ''cam1'',
      streamsVideo = (\<lambda>e. e \<in> set live), canManageGroupCall = True,
      peerAddress = (\<lambda>p. p)\<rparr>"

text \<open>
  The rows of the peers 1, 2 and 3; the row of the peer 2, whose object is at the address
  2, shows \<open>shown\<close>.
\<close>

definition video_controller :: "endpoint \<Rightarrow> endpoint \<Rightarrow> controller" where
  "video_controller large shown =
     scenario_controller\<lparr>rows := [scenario_row 1 Active 0,
               (scenario_row 2 Inactive 0)\<lparr>videoTrackEndpoint := shown\<rparr>,
               scenario_row 3 Inactive 0],
        largeEndpoint := large,
        videoEndpoints := (if shown = [] then [] else [(shown, 2)])\<rparr>"

section \<open>Properties\<close>

subsection \<open>The state of a row after a participant update\<close>

lemma Row_setState_fields:
  "state (fst (Row_setState s r)) = s"
  "sounding (fst (Row_setState s r)) = sounding r"
  "speaking (fst (Row_setState s r)) = speaking r"
  "raisedHandRating (fst (Row_setState s r)) = raisedHandRating r"
  "peer (fst (Row_setState s r)) = peer r"
  "ssrc (fst (Row_setState s r)) = ssrc r"
  "videoTrackEndpoint (fst (Row_setState s r)) = videoTrackEndpoint r"
  by (simp_all add: Row_setState_def Let_def)

lemma Row_setSounding_fields:
  "state (Row_setSounding b r) = state r"
  "sounding (Row_setSounding b r) = b"
  "speaking (Row_setSounding b r) = speaking r"
  "raisedHandRating (Row_setSounding b r) = raisedHandRating r"
  "peer (Row_setSounding b r) = peer r"
  "ssrc (Row_setSounding b r) = ssrc r"
  "videoTrackEndpoint (Row_setSounding b r) = videoTrackEndpoint r"
  "raisedHandStatus (Row_setSounding b r) = raisedHandStatus r"
  by (simp_all add: Row_setSounding_def)

lemma Row_setSpeaking_fields:
  "state (Row_setSpeaking b r) = state r"
  "sounding (Row_setSpeaking b r) = sounding r"
  "speaking (Row_setSpeaking b r) = b"
  "raisedHandRating (Row_setSpeaking b r) = raisedHandRating r"
  "peer (Row_setSpeaking b r) = peer r"
  "ssrc (Row_setSpeaking b r) = ssrc r"
  "videoTrackEndpoint (Row_setSpeaking b r) = videoTrackEndpoint r"
  "raisedHandStatus (Row_setSpeaking b r) = raisedHandStatus r"
  by (simp_all add: Row_setSpeaking_def)

lemmas Row_set_fields = Row_setState_fields Row_setSounding_fields Row_setSpeaking_fields

text \<open>
  Claim C3. For every row and every participant update (also the update without a
  participant record), \<^verbatim>\<open>Row::updateState\<close> leaves the row in the state, with the
  sounding and speaking flags and with the rating that the state-transition mapping of
  the specification gives: Invited with both flags false and the rating zeroed without a
  record; MutedByMe or Active with the participant's flags (false when the ssrc is 0)
  when the participant is not muted or sounds with a nonzero ssrc; MutedByMe or Inactive
  with both flags false when the participant can unmute itself; otherwise the rating is
  copied, the state is RaisedHand for a rating above 0 and Muted for the rating 0, and
  both flags are false.
\<close>

theorem updateState_follows_transition_mapping:
  "(let r' = fst (Row_updateState po r)
    in (state r', sounding r', speaking r', raisedHandRating r')) = spec_transition po"
proof (cases po)
  case None
  then show ?thesis
    by (simp add: Row_updateState_def spec_transition_def Let_def split_beta Row_set_fields)
next
  case (Some p)
  then show ?thesis
    by (auto simp add: Row_updateState_def spec_transition_def Let_def split_beta
        Row_set_fields word_neq_0_conv)
qed

theorem updateState_follows_transition_mapping_witness:
  "(let r' = fst (Row_updateState (Some (scenario_participant 7)) (scenario_row 4 Muted 0))
    in (state r', sounding r', speaking r', raisedHandRating r')) = (RaisedHand, False, False, 7)"
  using updateState_follows_transition_mapping
    [of "Some (scenario_participant 7)" "scenario_row 4 Muted 0"]
  by (simp add: spec_transition_def scenario_participant_def)

subsection \<open>The resort decision\<close>

lemma peer_nth_eq:
  "distinct (map peer rs) \<Longrightarrow> i < length rs \<Longrightarrow> j < length rs \<Longrightarrow> peer (rs ! i) = peer (rs ! j) \<Longrightarrow> i = j"
  by (metis distinct_conv_nth length_map nth_map)

lemma allRowsAboveAreSpeaking_iff:
  "distinct (map peer rs) \<Longrightarrow> i < length rs \<Longrightarrow>
   allRowsAboveAreSpeaking (peer (rs ! i)) rs = (\<forall>j<i. speaking (rs ! j))"
proof (induction rs arbitrary: i)
  case Nil
  then show ?case by simp
next
  case (Cons r rest)
  show ?case
  proof (cases i)
    case 0
    then show ?thesis by simp
  next
    case (Suc k)
    with Cons.prems have k: "k < length rest" and d: "distinct (map peer rest)"
      and ne: "peer r \<noteq> peer (rest ! k)"
      by auto
    have "allRowsAboveAreSpeaking (peer (rest ! k)) rest = (\<forall>j<k. speaking (rest ! j))"
      using Cons.IH [OF d k] .
    with Suc ne show ?thesis
      by (auto simp: less_Suc_eq_0_disj)
  qed
qed

lemma allRowsAboveMoreImportantThanHand_iff:
  "distinct (map peer rs) \<Longrightarrow> i < length rs \<Longrightarrow>
   allRowsAboveMoreImportantThanHand (peer (rs ! i)) h rs =
     (\<forall>j<i. \<not> (state (rs ! j) = Muted \<or> (state (rs ! j) = RaisedHand \<and> raisedHandRating (rs ! j) < h)))"
proof (induction rs arbitrary: i)
  case Nil
  then show ?case by simp
next
  case (Cons r rest)
  show ?case
  proof (cases i)
    case 0
    then show ?thesis by simp
  next
    case (Suc k)
    with Cons.prems have k: "k < length rest" and d: "distinct (map peer rest)"
      and ne: "peer r \<noteq> peer (rest ! k)"
      by auto
    note IH = Cons.IH [OF d k]
    with Suc ne show ?thesis
      by (auto simp: less_Suc_eq_0_disj)
  qed
qed

lemma absoluteIndex_nth:
  "distinct (map peer rs) \<Longrightarrow> i < length rs \<Longrightarrow> absoluteIndex (peer (rs ! i)) rs = i"
proof (induction rs arbitrary: i)
  case Nil
  then show ?case by simp
next
  case (Cons r rest)
  then show ?case by (cases i) auto
qed

text \<open>
  Claim C1. \<^verbatim>\<open>needToReorder\<close> for the row at the position \<open>i\<close> of a list with one
  row for a peer. A speaking row needs a reorder exactly when the scan from the top meets
  a row that does not speak before it meets the row. A row that does not speak never
  needs one when the caller cannot manage the call. Otherwise, for a row with a rating
  above 0 or in the state Muted: a reorder is needed when the row has a raised hand and
  the scan meets, before the row, a row that is not more important than the hand (a
  Muted row, or a RaisedHand row with a lower rating); and it is needed when the row is
  Muted or RaisedHand with the rating 0 and the row that follows it is neither Muted nor
  RaisedHand, or is RaisedHand with a nonzero rating. The last conjunct gives the exact
  condition of the code in that case.
\<close>

theorem needToReorder_procedure:
  assumes d: "distinct (map peer rs)" and i: "i < length rs"
  shows
    "(speaking (rs ! i) \<longrightarrow>
        needToReorder cl rs (rs ! i) = (\<exists>j<i. \<not> speaking (rs ! j)))
     \<and> (\<not> speaking (rs ! i) \<and> \<not> canManageGroupCall cl \<longrightarrow> \<not> needToReorder cl rs (rs ! i))
     \<and> (\<not> speaking (rs ! i) \<and> canManageGroupCall cl
          \<and> (0 < raisedHandRating (rs ! i) \<or> state (rs ! i) = Muted) \<longrightarrow>
         (0 < raisedHandRating (rs ! i)
            \<and> (\<exists>j<i. state (rs ! j) = Muted
                   \<or> (state (rs ! j) = RaisedHand
                       \<and> raisedHandRating (rs ! j) < raisedHandRating (rs ! i)))
            \<longrightarrow> needToReorder cl rs (rs ! i))
         \<and> ((state (rs ! i) = Muted \<or> state (rs ! i) = RaisedHand)
              \<and> raisedHandRating (rs ! i) = 0 \<and> Suc i < length rs
              \<and> (state (rs ! Suc i) \<noteq> Muted \<and> state (rs ! Suc i) \<noteq> RaisedHand
                  \<or> state (rs ! Suc i) = RaisedHand \<and> raisedHandRating (rs ! Suc i) \<noteq> 0)
            \<longrightarrow> needToReorder cl rs (rs ! i))
         \<and> needToReorder cl rs (rs ! i) =
             (0 < raisedHandRating (rs ! i)
                \<and> (\<exists>j<i. state (rs ! j) = Muted
                       \<or> (state (rs ! j) = RaisedHand
                           \<and> raisedHandRating (rs ! j) < raisedHandRating (rs ! i)))
              \<or> Suc i < length rs
                \<and> (state (rs ! Suc i) \<noteq> Muted \<and> state (rs ! Suc i) \<noteq> RaisedHand
                    \<or> raisedHandRating (rs ! i) = 0 \<and> raisedHandRating (rs ! Suc i) \<noteq> 0)))"
proof -
  note sp = allRowsAboveAreSpeaking_iff [OF d i]
  note hd = allRowsAboveMoreImportantThanHand_iff [OF d i, of "raisedHandRating (rs ! i)"]
  note ix = absoluteIndex_nth [OF d i]
  have a: "speaking (rs ! i) \<longrightarrow>
        needToReorder cl rs (rs ! i) = (\<exists>j<i. \<not> speaking (rs ! j))"
    by (simp add: needToReorder_def sp)
  have b: "\<not> speaking (rs ! i) \<and> \<not> canManageGroupCall cl \<longrightarrow> \<not> needToReorder cl rs (rs ! i)"
    by (simp add: needToReorder_def)
  have c: "\<not> speaking (rs ! i) \<and> canManageGroupCall cl
          \<and> (0 < raisedHandRating (rs ! i) \<or> state (rs ! i) = Muted) \<longrightarrow>
      needToReorder cl rs (rs ! i) =
             (0 < raisedHandRating (rs ! i)
                \<and> (\<exists>j<i. state (rs ! j) = Muted
                       \<or> (state (rs ! j) = RaisedHand
                           \<and> raisedHandRating (rs ! j) < raisedHandRating (rs ! i)))
              \<or> Suc i < length rs
                \<and> (state (rs ! Suc i) \<noteq> Muted \<and> state (rs ! Suc i) \<noteq> RaisedHand
                    \<or> raisedHandRating (rs ! i) = 0 \<and> raisedHandRating (rs ! Suc i) \<noteq> 0))"
    using i by (auto simp add: needToReorder_def hd ix Let_def word_neq_0_conv)
  from a b c show ?thesis
    by (auto simp: word_neq_0_conv)
qed

theorem needToReorder_procedure_witness:
  "distinct (map peer (rows scenario_raised)) \<and> 3 < length (rows scenario_raised)
   \<and> needToReorder (scenario_call True) (rows scenario_raised) (rows scenario_raised ! 3)"
proof -
  let ?rs = "rows scenario_raised"
  have d: "distinct (map peer ?rs)"
    by (simp add: scenario_raised_def scenario_row_def newRow_def)
  have i: "3 < length ?rs"
    by (simp add: scenario_raised_def)
  have pre: "\<not> speaking (?rs ! 3) \<and> canManageGroupCall (scenario_call True)
      \<and> (0 < raisedHandRating (?rs ! 3) \<or> state (?rs ! 3) = Muted)"
    by (simp add: scenario_raised_def scenario_row_def newRow_def scenario_call_def)
  have "state (?rs ! 1) = RaisedHand \<and> raisedHandRating (?rs ! 1) < raisedHandRating (?rs ! 3)"
    by (simp add: scenario_raised_def scenario_row_def newRow_def)
  then have ex: "\<exists>j<3. state (?rs ! j) = Muted
      \<or> (state (?rs ! j) = RaisedHand \<and> raisedHandRating (?rs ! j) < raisedHandRating (?rs ! 3))"
    by (intro exI [of _ 1]) simp
  have hand: "0 < raisedHandRating (?rs ! 3)"
    by (simp add: scenario_raised_def scenario_row_def newRow_def)
  from needToReorder_procedure [OF d i, of "scenario_call True"] pre ex hand
  have "needToReorder (scenario_call True) ?rs (?rs ! 3)"
    by blast
  with d i show ?thesis by simp
qed

subsection \<open>The sort of a resort\<close>

lemma mset_insertRow: "mset (insertRow cmp x xs) = add_mset x (mset xs)"
  by (induction xs) auto

lemma mset_peerListSortRows: "mset (peerListSortRows cmp xs) = mset xs"
  by (induction xs) (auto simp: mset_insertRow)

lemma set_insertRow: "set (insertRow cmp x xs) = insert x (set xs)"
  by (induction xs) auto

lemma sorted_insertRow:
  fixes proj :: "row \<Rightarrow> 64 word"
  assumes "sorted_wrt (\<lambda>a b. proj b \<le> proj a) xs"
  shows "sorted_wrt (\<lambda>a b. proj b \<le> proj a) (insertRow (makeComparator proj) x xs)"
  using assms
proof (induction xs)
  case Nil
  then show ?case by simp
next
  case (Cons y ys)
  then show ?case
    by (auto simp: makeComparator_def set_insertRow not_less intro: order_trans)
qed

lemma sorted_peerListSortRows:
  fixes proj :: "row \<Rightarrow> 64 word"
  shows "sorted_wrt (\<lambda>a b. proj b \<le> proj a) (peerListSortRows (makeComparator proj) xs)"
  by (induction xs) (auto intro: sorted_insertRow)

lemma projForAdmin_spec: "projForAdmin p = spec_key_privileged p"
  by (rule ext) (simp add: projForAdmin_def spec_key_privileged_def)

lemma projForOther_spec: "projForOther p = spec_key_unprivileged p"
  by (rule ext) (simp add: projForOther_def spec_key_unprivileged_def)

lemma checkRowPosition_rows:
  assumes "menu c = None" "findRow c p = Some r" "needToReorder cl (rows c) r"
  shows "rows (checkRowPosition cl p c) = peerListSortRows (makeComparator (spec_key cl p)) (rows c)"
proof -
  have "spec_key cl p = (if canManageGroupCall cl then projForAdmin p else projForOther p)"
    by (rule ext) (simp add: spec_key_def projForAdmin_spec projForOther_spec)
  with assms show ?thesis
    by (simp add: checkRowPosition_def)
qed

text \<open>
  Claim C2. When no menu is open and the row \<open>p\<close> needs a reorder,
  \<^verbatim>\<open>checkRowPosition\<close> leaves the same rows in descending order of the key of the
  specification: for a caller that can manage the call, the largest number for the
  speaking row \<open>p\<close>, one less for the other speaking rows, the rating when it is above
  0, 1 for the Muted row \<open>p\<close>, 0 for the other Muted rows and the largest number less 2
  for all the others; for the other callers, the largest number for the speaking row
  \<open>p\<close>, one less for the other speaking rows and 0 for the others. In the scenario of
  the specification (the rows Active, RaisedHand 5, RaisedHand 9, Muted seen by an admin,
  and a participant update that raises the hand of the Muted row with the rating 7) the
  handler of the update leaves the order Active, RaisedHand 9, RaisedHand 7, RaisedHand 5.
\<close>

theorem checkRowPosition_sorts_by_spec_key:
  assumes "menu c = None" and "findRow c p = Some r" and "needToReorder cl (rows c) r"
  shows "sorted_wrt (\<lambda>a b. spec_key cl p b \<le> spec_key cl p a) (rows (checkRowPosition cl p c))
     \<and> mset (rows (checkRowPosition cl p c)) = mset (rows c)
     \<and> map (\<lambda>r. (peer r, state r, raisedHandRating r))
         (rows (updateRow tnow (scenario_call True) (Some (scenario_participant 0))
                  (scenario_participant 7) scenario_controller))
       = [(1, Active, 0), (3, RaisedHand, 9), (4, RaisedHand, 7), (2, RaisedHand, 5)]"
proof -
  have rs: "rows (checkRowPosition cl p c)
      = peerListSortRows (makeComparator (spec_key cl p)) (rows c)"
    using assms by (rule checkRowPosition_rows)
  have a: "sorted_wrt (\<lambda>a b. spec_key cl p b \<le> spec_key cl p a) (rows (checkRowPosition cl p c))"
    unfolding rs by (rule sorted_peerListSortRows)
  have b: "mset (rows (checkRowPosition cl p c)) = mset (rows c)"
    unfolding rs by (rule mset_peerListSortRows)
  have c: "map (\<lambda>r. (peer r, state r, raisedHandRating r))
         (rows (updateRow tnow (scenario_call True) (Some (scenario_participant 0))
                  (scenario_participant 7) scenario_controller))
       = [(1, Active, 0), (3, RaisedHand, 9), (4, RaisedHand, 7), (2, RaisedHand, 5)]"
    by (simp add: updateRow_def findRow_def scenario_controller_def scenario_row_def
        scenario_participant_def scenario_call_def newRow_def updateRowInList_def
        updateRowObject_def Row_updateState_def Row_setState_def Row_setSounding_def
        Row_setSpeaking_def rowScheduleRaisedHandStatusRemove_def
        scheduleRaisedHandStatusRemove_def kKeepRaisedHandStatusDuration_def
        checkRowPosition_def needToReorder_def projForAdmin_def makeComparator_def kTop_def
        Let_def)
  from a b c show ?thesis by simp
qed

theorem checkRowPosition_sorts_by_spec_key_witness:
  "menu scenario_raised = None
   \<and> findRow scenario_raised 4 = Some (scenario_row 4 RaisedHand 7)
   \<and> needToReorder (scenario_call True) (rows scenario_raised) (scenario_row 4 RaisedHand 7)
   \<and> sorted_wrt (\<lambda>a b. spec_key (scenario_call True) 4 b \<le> spec_key (scenario_call True) 4 a)
        (rows (checkRowPosition (scenario_call True) 4 scenario_raised))"
proof -
  have m: "menu scenario_raised = None"
    by (simp add: scenario_raised_def scenario_controller_def)
  have f: "findRow scenario_raised 4 = Some (scenario_row 4 RaisedHand 7)"
    by (simp add: findRow_def scenario_raised_def scenario_row_def newRow_def)
  have n: "needToReorder (scenario_call True) (rows scenario_raised) (scenario_row 4 RaisedHand 7)"
    by (simp add: needToReorder_def scenario_raised_def scenario_row_def newRow_def
        scenario_call_def)
  from checkRowPosition_sorts_by_spec_key [OF m f n] m f n show ?thesis
    by simp
qed

subsection \<open>Checks while a menu is open\<close>

lemma flat_set_emplace_subset: "set (flat_set_emplace addr x xs) \<subseteq> insert x (set xs)"
  by (induction xs) auto

lemma set_flat_set_emplace:
  "inj addr \<Longrightarrow> set (flat_set_emplace addr x xs) = insert x (set xs)"
  by (induction xs) (auto dest: injD)

lemma sorted_flat_set_emplace:
  "sorted_wrt (\<lambda>a b. addr a < addr b) xs
   \<Longrightarrow> sorted_wrt (\<lambda>a b. addr a < addr b) (flat_set_emplace addr x xs)"
proof (induction xs)
  case Nil
  then show ?case by simp
next
  case (Cons y ys)
  have "addr y < addr z" if "z \<in> set (flat_set_emplace addr x ys)" "addr y < addr x" for z
    using that Cons.prems flat_set_emplace_subset [of addr x ys] by auto
  with Cons show ?case
    by auto
qed

lemma sorted_by_address_unique:
  fixes addr :: "peer_id \<Rightarrow> nat"
  assumes xs: "sorted_wrt (\<lambda>a b. addr a < addr b) xs"
    and ys: "sorted_wrt (\<lambda>a b. addr a < addr b) ys"
    and eq: "set xs = set ys"
  shows "xs = ys"
proof -
  have sx: "sorted_wrt (<) (map addr xs)" and sy: "sorted_wrt (<) (map addr ys)"
    using xs ys by (simp_all add: sorted_wrt_map)
  have "set (map addr xs) = set (map addr ys)"
    using eq by simp
  with sx sy have m: "map addr xs = map addr ys"
    by (metis strict_sorted_equal)
  have "distinct (map addr xs)"
    using sx by (simp add: strict_sorted_iff)
  then have "inj_on addr (set xs \<union> set ys)"
    using eq by (simp add: distinct_map)
  with m show ?thesis
    by (simp add: inj_on_map_eq_map)
qed

lemma flat_set_emplace_commute:
  assumes "inj addr" and "sorted_wrt (\<lambda>a b. addr a < addr b) xs"
  shows "flat_set_emplace addr p (flat_set_emplace addr q xs)
       = flat_set_emplace addr q (flat_set_emplace addr p xs)"
  using assms
  by (intro sorted_by_address_unique [of addr] sorted_flat_set_emplace)
    (auto simp: set_flat_set_emplace)

lemma flat_set_emplace_twice:
  assumes "inj addr" and "sorted_wrt (\<lambda>a b. addr a < addr b) xs"
  shows "flat_set_emplace addr p (flat_set_emplace addr p xs) = flat_set_emplace addr p xs"
  using assms
  by (intro sorted_by_address_unique [of addr] sorted_flat_set_emplace)
    (auto simp: set_flat_set_emplace)

text \<open>
  Claim C9, as stated, fails in two ways. First, the checks are not applied in the order
  in which the rows were collected: \<^verbatim>\<open>_menuCheckRowsAfterHidden\<close> is a set of peer
  pointers sorted by their values, and the callback walks it in that order. With the menu
  0 open and the \<^verbatim>\<open>PeerData\<close> object of the peer 1 below that of the peer 2, a check is
  asked for the row of the peer 2 and then for the row of the peer 1: the set holds 1
  before 2, the close of the menu checks 1 first and leaves the rows 1, 2, 3, while the
  checks in the order of collection (2, then 1) leave the rows 2, 1, 3. With the objects
  the other way round in memory, the checks asked for 1 and then for 2 are run as 2, then
  1, and leave the rows 2, 1, 3, while the order of collection leaves 1, 2, 3.
  Second, a resort is applied while the menu is open: \<^verbatim>\<open>updateRow(was, now)\<close> sorts the
  rows itself, without looking at \<^verbatim>\<open>_menu\<close>. With the menu 0 open over the rows 3, 1, 2
  (the rows 1 and 2 speak), the peer 5 joins a call that puts joined participants on
  top: the rows are 1, 2, 5, 3 afterwards and the menu is still open.
\<close>

theorem menu_flush_order_counterexample:
  "menuCheckRowsAfterHidden
      (checkRowPosition (scenario_call False) 1
        (checkRowPosition (scenario_call False) 2 menu_controller)) = [1, 2]
   \<and> map peer (rows (rowMenuDestroyed (scenario_call False) 0
        (checkRowPosition (scenario_call False) 1
          (checkRowPosition (scenario_call False) 2 menu_controller)))) = [1, 2, 3]
   \<and> map peer (rows (fold (checkIfRow (scenario_call False)) [2, 1]
        (menu_controller\<lparr>menu := None\<rparr>))) = [2, 1, 3]
   \<and> menuCheckRowsAfterHidden
        (checkRowPosition mirrored_call 2 (checkRowPosition mirrored_call 1 menu_controller))
       = [2, 1]
   \<and> map peer (rows (rowMenuDestroyed mirrored_call 0
        (checkRowPosition mirrored_call 2 (checkRowPosition mirrored_call 1 menu_controller))))
       = [2, 1, 3]
   \<and> map peer (rows (fold (checkIfRow mirrored_call) [1, 2]
        (menu_controller\<lparr>menu := None\<rparr>))) = [1, 2, 3]
   \<and> menu menu_controller = Some 0
   \<and> map peer (rows menu_controller) = [3, 1, 2]
   \<and> menu (updateRow 0 joined_call None joining_participant menu_controller) = Some 0
   \<and> map peer (rows (updateRow 0 joined_call None joining_participant menu_controller))
       = [1, 2, 5, 3]"
  by code_simp

text \<open>
  Claim C9, amended. While a menu is open, a resort asked through \<^verbatim>\<open>checkRowPosition\<close>
  is not applied: the rows and the menu stay as they are and the peer of the row is added
  to the set of the rows to check. The set is kept in the ascending order of the
  addresses of the \<^verbatim>\<open>PeerData\<close> objects, without duplicates: a row queued twice is kept
  once, and the set does not depend on the order in which two rows were queued. When that
  menu is destroyed (and for no other menu), the callback applies \<^verbatim>\<open>checkRowPosition\<close>,
  with no menu set, once to every queued peer that still has a row, in the order of the
  set and on the state that the controller has at that time; then it sets the menu again.
  The rows that \<^verbatim>\<open>updateRow(was, now)\<close> sorts, partitions or prepends are no part of this
  statement.
\<close>

theorem menu_defers_and_flushes_in_address_order:
  assumes m: "menu c = Some m"
    and s: "sorted_wrt (\<lambda>a b. peerAddress cl a < peerAddress cl b) (menuCheckRowsAfterHidden c)"
    and i: "inj (peerAddress cl)"
  shows "rows (checkRowPosition cl p c) = rows c
     \<and> menu (checkRowPosition cl p c) = Some m
     \<and> sorted_wrt (\<lambda>a b. peerAddress cl a < peerAddress cl b)
         (menuCheckRowsAfterHidden (checkRowPosition cl p c))
     \<and> set (menuCheckRowsAfterHidden (checkRowPosition cl p c))
         = insert p (set (menuCheckRowsAfterHidden c))
     \<and> checkRowPosition cl p (checkRowPosition cl p c) = checkRowPosition cl p c
     \<and> checkRowPosition cl p (checkRowPosition cl q c)
         = checkRowPosition cl q (checkRowPosition cl p c)
     \<and> distinct (menuCheckRowsAfterHidden c)
     \<and> rowMenuDestroyed cl m c
         = (fold (checkIfRow cl) (menuCheckRowsAfterHidden c)
              (c\<lparr>menu := None, menuCheckRowsAfterHidden := []\<rparr>))\<lparr>menu := Some m\<rparr>
     \<and> (\<forall>m'. m' \<noteq> m \<longrightarrow> rowMenuDestroyed cl m' c = c)"
proof -
  let ?addr = "peerAddress cl"
  have q: "checkRowPosition cl x c'
      = c'\<lparr>menuCheckRowsAfterHidden := flat_set_emplace ?addr x (menuCheckRowsAfterHidden c')\<rparr>"
    if "menu c' = Some m" for x c'
    using that by (simp add: checkRowPosition_def)
  have mq: "menu (checkRowPosition cl x c) = Some m" for x
    using m by (simp add: q)
  have a: "rows (checkRowPosition cl p c) = rows c"
    using m by (simp add: q)
  have c: "sorted_wrt (\<lambda>a b. ?addr a < ?addr b) (menuCheckRowsAfterHidden (checkRowPosition cl p c))"
    using s m by (simp add: q sorted_flat_set_emplace)
  have d: "set (menuCheckRowsAfterHidden (checkRowPosition cl p c))
         = insert p (set (menuCheckRowsAfterHidden c))"
    using m i by (simp add: q set_flat_set_emplace)
  have e: "checkRowPosition cl p (checkRowPosition cl p c) = checkRowPosition cl p c"
    unfolding q [OF mq] by (simp add: q [OF m] flat_set_emplace_twice [OF i s])
  have f: "checkRowPosition cl p (checkRowPosition cl q c)
         = checkRowPosition cl q (checkRowPosition cl p c)"
    unfolding q [OF mq] by (simp add: q [OF m] flat_set_emplace_commute [OF i s])
  have "sorted_wrt (<) (map ?addr (menuCheckRowsAfterHidden c))"
    using s by (simp add: sorted_wrt_map)
  then have "distinct (map ?addr (menuCheckRowsAfterHidden c))"
    by (simp add: strict_sorted_iff)
  then have g: "distinct (menuCheckRowsAfterHidden c)"
    by (simp add: distinct_map)
  have h: "rowMenuDestroyed cl m c
         = (fold (checkIfRow cl) (menuCheckRowsAfterHidden c)
              (c\<lparr>menu := None, menuCheckRowsAfterHidden := []\<rparr>))\<lparr>menu := Some m\<rparr>"
    using m by (simp add: rowMenuDestroyed_def Let_def)
  have k: "\<forall>m'. m' \<noteq> m \<longrightarrow> rowMenuDestroyed cl m' c = c"
    using m by (simp add: rowMenuDestroyed_def)
  from a mq [of p] c d e f g h k show ?thesis by blast
qed

theorem menu_defers_and_flushes_in_address_order_witness:
  "menu (menu_controller\<lparr>menuCheckRowsAfterHidden := [2]\<rparr>) = Some 0
   \<and> sorted_wrt (\<lambda>a b. peerAddress (scenario_call False) a < peerAddress (scenario_call False) b)
        (menuCheckRowsAfterHidden (menu_controller\<lparr>menuCheckRowsAfterHidden := [2]\<rparr>))
   \<and> inj (peerAddress (scenario_call False))
   \<and> rows (checkRowPosition (scenario_call False) 1
        (menu_controller\<lparr>menuCheckRowsAfterHidden := [2]\<rparr>)) = rows menu_controller
   \<and> set (menuCheckRowsAfterHidden (checkRowPosition (scenario_call False) 1
        (menu_controller\<lparr>menuCheckRowsAfterHidden := [2]\<rparr>))) = {1, 2}"
proof -
  let ?c = "menu_controller\<lparr>menuCheckRowsAfterHidden := [2]\<rparr>"
  have m: "menu ?c = Some 0"
    by (simp add: menu_controller_def)
  have s: "sorted_wrt (\<lambda>a b. peerAddress (scenario_call False) a < peerAddress (scenario_call False) b)
        (menuCheckRowsAfterHidden ?c)"
    by simp
  have i: "inj (peerAddress (scenario_call False))"
    by (simp add: scenario_call_def)
  from menu_defers_and_flushes_in_address_order [OF m s i, of 1] m s i
  show ?thesis by auto
qed

subsection \<open>The raised-hand status and its timer\<close>

lemma removeLoop_entries:
  "fst (removeLoop now es rs w) = filter (\<lambda>(i, at). now < at) es"
  by (induction now es rs w rule: removeLoop.induct) (auto simp: Let_def split_beta)

lemma clearRaisedHandStatus_eq: "clearRaisedHandStatus r = r\<lparr>raisedHandStatus := False\<rparr>"
  by (cases r) (simp add: clearRaisedHandStatus_def)

lemma updateFirst_map:
  "distinct (map peer rs) \<Longrightarrow> (\<And>r. peer (f r) = peer r) \<Longrightarrow>
   updateFirst p f rs = map (\<lambda>r. if peer r = p then f r else r) rs"
proof (induction rs)
  case Nil
  then show ?case by simp
next
  case (Cons a rs)
  show ?case
  proof (cases "peer a = p")
    case True
    with Cons.prems have "\<forall>r \<in> set rs. peer r \<noteq> p"
      by (auto simp: image_iff)
    then have "map (\<lambda>r. if peer r = p then f r else r) rs = rs"
      by (induction rs) auto
    with True show ?thesis by simp
  next
    case False
    with Cons show ?thesis by simp
  qed
qed

lemma removeLoop_rows:
  "distinct (map peer rs) \<Longrightarrow>
   fst (snd (removeLoop now es rs w))
     = map (\<lambda>r. if \<exists>at. (peer r, at) \<in> set es \<and> at \<le> now
                 then r\<lparr>raisedHandStatus := False\<rparr> else r) rs"
proof (induction now es rs w rule: removeLoop.induct)
  case (1 now rs waiting)
  then show ?case by simp
next
  case (2 now i at es rs waiting)
  show ?case
  proof (cases "at \<le> now")
    case True
    have u: "updateFirst i clearRaisedHandStatus rs
        = map (\<lambda>r. if peer r = i then r\<lparr>raisedHandStatus := False\<rparr> else r) rs"
      using "2.prems" by (simp add: updateFirst_map clearRaisedHandStatus_eq)
    have d: "distinct (map peer (updateFirst i clearRaisedHandStatus rs))"
      using "2.prems" by (simp add: u comp_def if_distrib [of peer] cong: if_cong)
    show ?thesis
      using True "2.IH"(1) [OF True d]
      by (auto simp: u)
  next
    case False
    with "2.IH"(2) [OF False refl "2.prems"] show ?thesis
      by (auto simp: Let_def split_beta)
  qed
qed

lemma removeLoop_waiting:
  "0 \<le> w \<Longrightarrow>
   (let es' = filter (\<lambda>(i, at). now < at) es; w' = snd (snd (removeLoop now es rs w))
    in (w = 0 \<and> es' = [] \<longrightarrow> w' = 0)
       \<and> (w \<noteq> 0 \<or> es' \<noteq> [] \<longrightarrow>
            0 < w' \<and> (w \<noteq> 0 \<longrightarrow> w' \<le> w)
            \<and> (w \<noteq> 0 \<and> w' = w \<or> (\<exists>i at. (i, at) \<in> set es' \<and> w' = at - now))
            \<and> (\<forall>(i, at) \<in> set es'. w' \<le> at - now)))"
proof (induction now es rs w rule: removeLoop.induct)
  case (1 now rs waiting)
  then show ?case by (simp add: Let_def)
next
  case (2 now i at es rs waiting)
  show ?case
  proof (cases "at \<le> now")
    case True
    with "2.IH"(1) [OF True "2.prems"] show ?thesis
      by (auto simp: Let_def)
  next
    case False
    let ?w = "if waiting = 0 \<or> at - now < waiting then at - now else waiting"
    have pos: "0 \<le> ?w" "?w \<noteq> 0"
      using False "2.prems" by auto
    from "2.IH"(2) [OF False refl pos(1)] pos(2) False "2.prems" show ?thesis
      by (simp add: Let_def split_beta) (auto split: if_splits)
  qed
qed

lemma removeLoop_waiting_Min:
  assumes "filter (\<lambda>(i, at). now < at) es \<noteq> []"
  shows "now + snd (snd (removeLoop now es rs 0))
       = Min (snd ` set (filter (\<lambda>(i, at). now < at) es))"
proof -
  let ?es = "filter (\<lambda>(i, at). now < at) es"
  let ?w = "snd (snd (removeLoop now es rs 0))"
  from removeLoop_waiting [of 0 now es rs] assms
  have ex: "\<exists>i at. (i, at) \<in> set ?es \<and> ?w = at - now"
    and le: "\<forall>(i, at) \<in> set ?es. ?w \<le> at - now"
    by (auto simp: Let_def)
  from ex obtain i at where m: "(i, at) \<in> set ?es" and w: "?w = at - now"
    by blast
  have "Min (snd ` set ?es) = at"
  proof (rule Min_eqI)
    show "finite (snd ` set ?es)" by simp
    show "at \<in> snd ` set ?es" using m by force
    show "at \<le> y" if "y \<in> snd ` set ?es" for y
      using that le w by fastforce
  qed
  with w show ?thesis by simp
qed

lemma removeLoop_waiting_zero:
  "filter (\<lambda>(i, at). now < at) es = [] \<Longrightarrow> snd (snd (removeLoop now es rs 0)) = 0"
  using removeLoop_waiting [of 0 now es rs] by (simp add: Let_def)

lemma removeLoop_waiting_pos:
  "filter (\<lambda>(i, at). now < at) es \<noteq> [] \<Longrightarrow> 0 < snd (snd (removeLoop now es rs 0))"
  using removeLoop_waiting [of 0 now es rs] by (simp add: Let_def)

lemma schedule_entries:
  "raisedHandStatusRemoveAt (scheduleRaisedHandStatusRemove now c)
     = filter (\<lambda>(i, at). now < at) (raisedHandStatusRemoveAt c)"
  using removeLoop_entries [of now "raisedHandStatusRemoveAt c" "rows c" 0]
  by (auto simp: scheduleRaisedHandStatusRemove_def Let_def split_beta split: option.splits)

lemma schedule_rows:
  "distinct (map peer (rows c)) \<Longrightarrow>
   rows (scheduleRaisedHandStatusRemove now c)
     = map (\<lambda>r. if \<exists>at. (peer r, at) \<in> set (raisedHandStatusRemoveAt c) \<and> at \<le> now
                 then r\<lparr>raisedHandStatus := False\<rparr> else r) (rows c)"
  using removeLoop_rows [of "rows c" now "raisedHandStatusRemoveAt c" 0]
  by (auto simp: scheduleRaisedHandStatusRemove_def Let_def split_beta split: option.splits)

lemma schedule_timer_idle:
  assumes "raisedHandStatusRemoveTimer c = None"
  shows "raisedHandStatusRemoveTimer (scheduleRaisedHandStatusRemove now c)
     = (if raisedHandStatusRemoveAt (scheduleRaisedHandStatusRemove now c) = [] then None
        else Some (Min (snd ` set (raisedHandStatusRemoveAt (scheduleRaisedHandStatusRemove now c)))))"
proof (cases "filter (\<lambda>(i, at). now < at) (raisedHandStatusRemoveAt c) = []")
  case True
  with assms removeLoop_waiting_zero [OF True, of "rows c"] show ?thesis
    by (simp add: schedule_entries) (simp add: scheduleRaisedHandStatusRemove_def split_beta Let_def)
next
  case False
  with assms removeLoop_waiting_pos [OF False, of "rows c"]
    removeLoop_waiting_Min [OF False, of "rows c"]
  show ?thesis
    by (simp add: schedule_entries) (simp add: scheduleRaisedHandStatusRemove_def split_beta Let_def)
qed

lemma schedule_timer_bound:
  assumes "raisedHandStatusRemoveAt (scheduleRaisedHandStatusRemove now c) \<noteq> []"
  shows "\<exists>t. raisedHandStatusRemoveTimer (scheduleRaisedHandStatusRemove now c) = Some t
     \<and> t \<le> Min (snd ` set (raisedHandStatusRemoveAt (scheduleRaisedHandStatusRemove now c)))"
proof -
  have ne: "filter (\<lambda>(i, at). now < at) (raisedHandStatusRemoveAt c) \<noteq> []"
    using assms by (simp add: schedule_entries)
  note p = removeLoop_waiting_pos [OF ne, of "rows c"]
  note m = removeLoop_waiting_Min [OF ne, of "rows c"]
  show ?thesis
  proof (cases "raisedHandStatusRemoveTimer c")
    case None
    with p m show ?thesis
      by (simp add: schedule_entries) (simp add: scheduleRaisedHandStatusRemove_def split_beta Let_def)
  next
    case (Some due)
    with p m show ?thesis
      by (simp add: schedule_entries)
        (auto simp: scheduleRaisedHandStatusRemove_def split_beta remainingTime_def Let_def
          split: if_splits)
  qed
qed

lemma Row_setState_flag:
  "raisedHandStatus (fst (Row_setState s r))
     = (raisedHandStatus r \<or> (state r \<noteq> RaisedHand \<and> s = RaisedHand))"
  "snd (Row_setState s r) = (state r \<noteq> RaisedHand \<and> s = RaisedHand)"
  by (auto simp: Row_setState_def Let_def)

lemma Row_updateState_flag:
  "snd (Row_updateState po r)
     = (state r \<noteq> RaisedHand \<and> state (fst (Row_updateState po r)) = RaisedHand)"
  "raisedHandStatus (fst (Row_updateState po r))
     = (raisedHandStatus r \<or> snd (Row_updateState po r))"
  "peer (fst (Row_updateState po r)) = peer r"
  by (cases po; simp add: Row_updateState_def Let_def split_beta Row_set_fields
      Row_setState_flag)+

lemma raise_schedules:
  assumes "state r \<noteq> RaisedHand" and "state (fst (Row_updateState po r)) = RaisedHand"
  shows "snd (Row_updateState po r) \<and> raisedHandStatus (fst (Row_updateState po r))"
  using assms by (simp add: Row_updateState_flag)

lemma flag_kept:
  "raisedHandStatus r \<Longrightarrow> raisedHandStatus (fst (Row_updateState po r))"
  by (simp add: Row_updateState_flag(2))

lemma map_of_flat_map_set: "map_of (flat_map_set k v es) k = Some v"
  by (induction es) auto

lemma map_of_filter_keep:
  "map_of es k = Some v \<Longrightarrow> P (k, v) \<Longrightarrow> map_of (filter P es) k = Some v"
  by (induction es) (auto split: if_splits)

lemma rowSchedule_entry:
  "map_of (raisedHandStatusRemoveAt (rowScheduleRaisedHandStatusRemove now i c)) i
     = Some (now + kKeepRaisedHandStatusDuration)"
  by (simp add: rowScheduleRaisedHandStatusRemove_def Let_def schedule_entries
      map_of_filter_keep map_of_flat_map_set kKeepRaisedHandStatusDuration_def)

lemma updateRowObject_fst: "fst (updateRowObject now po r c) = fst (Row_updateState po r)"
  by (simp add: updateRowObject_def Let_def split_beta)

lemma updateRowObject_entries:
  "raisedHandStatusRemoveAt (snd (updateRowObject now po r c))
     = (if snd (Row_updateState po r)
        then raisedHandStatusRemoveAt (rowScheduleRaisedHandStatusRemove now (peer r) c)
        else raisedHandStatusRemoveAt c)"
  by (simp add: updateRowObject_def Let_def split_beta)

lemma peer_updateFirst:
  "(\<And>r. peer (f r) = peer r) \<Longrightarrow> map peer (updateFirst p f rs) = map peer rs"
  by (induction rs) auto

lemma removeLoop_peers: "map peer (fst (snd (removeLoop now es rs w))) = map peer rs"
proof (induction now es rs w rule: removeLoop.induct)
  case (1 now rs waiting)
  then show ?case by simp
next
  case (2 now i at es rs waiting)
  have "map peer (updateFirst i clearRaisedHandStatus rs) = map peer rs"
    by (rule peer_updateFirst) (simp add: clearRaisedHandStatus_def)
  with 2 show ?case
    by (auto simp: Let_def split_beta)
qed

lemma schedule_peers: "map peer (rows (scheduleRaisedHandStatusRemove now c)) = map peer (rows c)"
  using removeLoop_peers [of now "raisedHandStatusRemoveAt c" "rows c" 0]
  by (auto simp: scheduleRaisedHandStatusRemove_def Let_def split_beta split: option.splits)

lemma find_updateFirst:
  "p \<in> peer ` set rs \<Longrightarrow> peer r' = p \<Longrightarrow>
   find (\<lambda>x. peer x = p) (updateFirst p (\<lambda>_. r') rs) = Some r'"
  by (induction rs) auto

lemma find_Some_peer: "find (\<lambda>x. peer x = p) rs = Some r \<Longrightarrow> p \<in> peer ` set rs"
  by (induction rs) (auto split: if_splits)

lemma updateRowInList_row:
  assumes "findRow c (peer r) = Some r"
  shows "findRow (updateRowInList now po r c) (peer r) = Some (fst (Row_updateState po r))"
proof -
  have in_c: "peer r \<in> peer ` set (rows c)"
    using assms by (simp add: findRow_def find_Some_peer)
  have "map peer (rows (snd (updateRowObject now po r c))) = map peer (rows c)"
    by (simp add: updateRowObject_def Let_def split_beta
        rowScheduleRaisedHandStatusRemove_def schedule_peers)
  with in_c have "peer r \<in> peer ` set (rows (snd (updateRowObject now po r c)))"
    by (metis set_map)
  then show ?thesis
    by (simp add: findRow_def updateRowInList_def split_beta updateRowObject_fst
        find_updateFirst Row_updateState_flag(3))
qed

lemma updateRowInList_entries:
  "raisedHandStatusRemoveAt (updateRowInList now po r c)
     = raisedHandStatusRemoveAt (snd (updateRowObject now po r c))"
  by (simp add: updateRowInList_def split_beta)

lemma timerFired_as_schedule:
  "rows (c\<lparr>raisedHandStatusRemoveTimer := None\<rparr>) = rows c"
  "raisedHandStatusRemoveAt (c\<lparr>raisedHandStatusRemoveTimer := None\<rparr>) = raisedHandStatusRemoveAt c"
  by simp_all

text \<open>
  Claim C8, as stated, fails in one part: the shared timer does not always fire at the
  minimum pending expiry. A raise that refreshes the entry of a row leaves an active
  timer alone when the timer is due earlier. The hand of the row 4 is raised at the time
  0, lowered at 1000 and raised again at 2000: the only pending expiry is 5000 and the
  timer is still due at 3000; it fires at 3000, clears nothing and is set to 5000.
\<close>

theorem timer_not_at_minimum_counterexample:
  "raisedHandStatusRemoveAt reraised_controller = [(4, 5000)]
   \<and> raisedHandStatusRemoveTimer reraised_controller = Some 3000
   \<and> raisedHandStatusRemoveAt (raisedHandStatusRemoveTimerFired 3000 reraised_controller)
       = [(4, 5000)]
   \<and> raisedHandStatusRemoveTimer (raisedHandStatusRemoveTimerFired 3000 reraised_controller)
       = Some 5000"
  by code_simp

text \<open>
  Claim C8, amended. The duration is 3 seconds. An update that brings a row of the list
  into RaisedHand from another state sets the status flag of the row and sets the expiry
  of the row to the current time plus the duration, whether the row had an entry or not
  (so a later raise never moves the expiry back); an update never clears the flag.
  \<^verbatim>\<open>scheduleRaisedHandStatusRemove\<close> clears the flag of exactly the rows whose entry is
  due and erases exactly the entries that are due, so that no flag is cleared before the
  expiry of its row; when entries remain, the timer is active and due no later than the
  smallest of them. When the timer fires, the same entries are erased and the same flags
  cleared, and the timer is set to the smallest remaining expiry, or left idle when none
  remains.
\<close>

theorem raisedHand_expiry_timer:
  assumes d: "distinct (map peer (rows c))"
  shows "kKeepRaisedHandStatusDuration = 3 * 1000
     \<and> (findRow c (peer r) = Some r \<and> state r \<noteq> RaisedHand
          \<and> state (fst (Row_updateState po r)) = RaisedHand \<longrightarrow>
         (\<exists>r'. findRow (updateRowInList now po r c) (peer r) = Some r'
               \<and> state r' = RaisedHand \<and> raisedHandStatus r')
         \<and> map_of (raisedHandStatusRemoveAt (updateRowInList now po r c)) (peer r)
             = Some (now + kKeepRaisedHandStatusDuration))
     \<and> (findRow c (peer r) = Some r \<and> raisedHandStatus r \<longrightarrow>
         (\<exists>r'. findRow (updateRowInList now po r c) (peer r) = Some r' \<and> raisedHandStatus r'))
     \<and> rows (scheduleRaisedHandStatusRemove now c)
         = map (\<lambda>x. if \<exists>at. (peer x, at) \<in> set (raisedHandStatusRemoveAt c) \<and> at \<le> now
                     then x\<lparr>raisedHandStatus := False\<rparr> else x) (rows c)
     \<and> raisedHandStatusRemoveAt (scheduleRaisedHandStatusRemove now c)
         = filter (\<lambda>(i, at). now < at) (raisedHandStatusRemoveAt c)
     \<and> (raisedHandStatusRemoveAt (scheduleRaisedHandStatusRemove now c) \<noteq> [] \<longrightarrow>
         (\<exists>t. raisedHandStatusRemoveTimer (scheduleRaisedHandStatusRemove now c) = Some t
             \<and> t \<le> Min (snd ` set (raisedHandStatusRemoveAt
                                       (scheduleRaisedHandStatusRemove now c)))))
     \<and> rows (raisedHandStatusRemoveTimerFired now c)
         = map (\<lambda>x. if \<exists>at. (peer x, at) \<in> set (raisedHandStatusRemoveAt c) \<and> at \<le> now
                     then x\<lparr>raisedHandStatus := False\<rparr> else x) (rows c)
     \<and> raisedHandStatusRemoveAt (raisedHandStatusRemoveTimerFired now c)
         = filter (\<lambda>(i, at). now < at) (raisedHandStatusRemoveAt c)
     \<and> raisedHandStatusRemoveTimer (raisedHandStatusRemoveTimerFired now c)
         = (if raisedHandStatusRemoveAt (raisedHandStatusRemoveTimerFired now c) = [] then None
            else Some (Min (snd ` set (raisedHandStatusRemoveAt
                                         (raisedHandStatusRemoveTimerFired now c)))))"
proof -
  have k: "kKeepRaisedHandStatusDuration = 3 * 1000"
    by (simp add: kKeepRaisedHandStatusDuration_def)
  have a: "findRow c (peer r) = Some r \<and> state r \<noteq> RaisedHand
          \<and> state (fst (Row_updateState po r)) = RaisedHand \<longrightarrow>
         (\<exists>r'. findRow (updateRowInList now po r c) (peer r) = Some r'
               \<and> state r' = RaisedHand \<and> raisedHandStatus r')
         \<and> map_of (raisedHandStatusRemoveAt (updateRowInList now po r c)) (peer r)
             = Some (now + kKeepRaisedHandStatusDuration)"
    by (simp add: updateRowInList_row updateRowInList_entries updateRowObject_entries
        raise_schedules rowSchedule_entry)
  have b: "findRow c (peer r) = Some r \<and> raisedHandStatus r \<longrightarrow>
         (\<exists>r'. findRow (updateRowInList now po r c) (peer r) = Some r' \<and> raisedHandStatus r')"
    by (simp add: updateRowInList_row flag_kept)
  note rs = schedule_rows [OF d, of now]
  note es = schedule_entries [of now c]
  note tm = schedule_timer_bound [of now c]
  have d': "distinct (map peer (rows (c\<lparr>raisedHandStatusRemoveTimer := None\<rparr>)))"
    using d by simp
  have frs: "rows (raisedHandStatusRemoveTimerFired now c)
         = map (\<lambda>x. if \<exists>at. (peer x, at) \<in> set (raisedHandStatusRemoveAt c) \<and> at \<le> now
                     then x\<lparr>raisedHandStatus := False\<rparr> else x) (rows c)"
    using schedule_rows [OF d', of now] by (simp add: raisedHandStatusRemoveTimerFired_def)
  have fes: "raisedHandStatusRemoveAt (raisedHandStatusRemoveTimerFired now c)
         = filter (\<lambda>(i, at). now < at) (raisedHandStatusRemoveAt c)"
    by (simp add: raisedHandStatusRemoveTimerFired_def schedule_entries)
  have ftm: "raisedHandStatusRemoveTimer (raisedHandStatusRemoveTimerFired now c)
         = (if raisedHandStatusRemoveAt (raisedHandStatusRemoveTimerFired now c) = [] then None
            else Some (Min (snd ` set (raisedHandStatusRemoveAt
                                         (raisedHandStatusRemoveTimerFired now c)))))"
    unfolding raisedHandStatusRemoveTimerFired_def
    by (rule schedule_timer_idle) simp
  from k a b rs es tm frs fes ftm show ?thesis
    by blast
qed

theorem raisedHand_expiry_timer_witness:
  "distinct (map peer (rows reraised_controller))
   \<and> raisedHandStatusRemoveAt (raisedHandStatusRemoveTimerFired 5000 reraised_controller) = []
   \<and> raisedHandStatusRemoveTimer (raisedHandStatusRemoveTimerFired 5000 reraised_controller) = None
   \<and> map raisedHandStatus (rows (raisedHandStatusRemoveTimerFired 5000 reraised_controller))
       = [False, False, False, False]"
proof -
  have d: "distinct (map peer (rows reraised_controller))"
    by code_simp
  have es: "raisedHandStatusRemoveAt reraised_controller = [(4, 5000)]"
    by code_simp
  from raisedHand_expiry_timer [OF d, where now = 5000]
  have f1: "rows (raisedHandStatusRemoveTimerFired 5000 reraised_controller)
         = map (\<lambda>x. if \<exists>at. (peer x, at) \<in> set (raisedHandStatusRemoveAt reraised_controller)
                              \<and> at \<le> 5000
                     then x\<lparr>raisedHandStatus := False\<rparr> else x) (rows reraised_controller)"
    and f2: "raisedHandStatusRemoveAt (raisedHandStatusRemoveTimerFired 5000 reraised_controller)
         = filter (\<lambda>(i, at). 5000 < at) (raisedHandStatusRemoveAt reraised_controller)"
    and f3: "raisedHandStatusRemoveTimer (raisedHandStatusRemoveTimerFired 5000 reraised_controller)
         = (if raisedHandStatusRemoveAt (raisedHandStatusRemoveTimerFired 5000 reraised_controller) = []
            then None
            else Some (Min (snd ` set (raisedHandStatusRemoveAt
                                         (raisedHandStatusRemoveTimerFired 5000 reraised_controller)))))"
    by blast+
  have e: "raisedHandStatusRemoveAt (raisedHandStatusRemoveTimerFired 5000 reraised_controller) = []"
    using f2 by (simp add: es)
  have t: "raisedHandStatusRemoveTimer (raisedHandStatusRemoveTimerFired 5000 reraised_controller) = None"
    using f3 e by simp
  have fl: "map raisedHandStatus (rows reraised_controller) = [False, False, True, False]"
    by code_simp
  have "map raisedHandStatus (rows (raisedHandStatusRemoveTimerFired 5000 reraised_controller))
       = map (\<lambda>x. if peer x = 4 then False else raisedHandStatus x) (rows reraised_controller)"
    unfolding f1 by (simp add: es if_distrib [of raisedHandStatus] cong: if_cong)
  also have "\<dots> = [False, False, False, False]"
    by code_simp
  finally show ?thesis using d e t by simp
qed

subsection \<open>Removing a row\<close>

lemma updateFirst_absent: "find (\<lambda>r. peer r = p) rs = None \<Longrightarrow> updateFirst p f rs = rs"
  by (induction rs) (auto split: if_splits)


lemma removeLoop_drop_absent:
  assumes "find (\<lambda>r. peer r = i) rs = None" and "at \<le> now"
  shows "removeLoop now (es1 @ (i, at) # es2) rs w = removeLoop now (es1 @ es2) rs w"
  using assms
proof (induction es1 arbitrary: rs w)
  case Nil
  then show ?case by (simp add: updateFirst_absent)
next
  case (Cons e es1)
  obtain j t where e: "e = (j, t)" by (cases e)
  have keep: "find (\<lambda>r. peer r = i) (updateFirst j clearRaisedHandStatus rs) = None"
    using Cons.prems(1) by (induction rs) (auto simp: clearRaisedHandStatus_def split: if_splits)
  show ?case
  proof (cases "t \<le> now")
    case True
    then show ?thesis using Cons.IH [OF keep Cons.prems(2)] by (simp add: e)
  next
    case False
    then show ?thesis using Cons.IH [OF Cons.prems] by (simp add: e Let_def)
  qed
qed

lemma timerFired_drop_absent:
  assumes "findRow c i = None" and "at \<le> now"
    and "raisedHandStatusRemoveAt c = es1 @ (i, at) # es2"
  shows "raisedHandStatusRemoveTimerFired now c
       = raisedHandStatusRemoveTimerFired now (c\<lparr>raisedHandStatusRemoveAt := es1 @ es2\<rparr>)"
  using assms
  by (simp add: raisedHandStatusRemoveTimerFired_def scheduleRaisedHandStatusRemove_def
      findRow_def removeLoop_drop_absent)

lemma find_peerListRemoveRow: "find (\<lambda>x. peer x = p) (peerListRemoveRow p rs) = None"
  by (induction rs) (auto simp: peerListRemoveRow_def)

text \<open>
  Claim C10, as stated, fails: \<^verbatim>\<open>removeRow\<close> does not cancel the raised-hand expiry of
  the row. After the raise of the scenario the row of the peer 4 has the entry (4, 3000);
  after \<^verbatim>\<open>removeRow\<close> the list has no row of the peer 4, the entry is still there and the
  timer is still due at 3000.
\<close>

theorem removeRow_keeps_expiry_counterexample:
  "findRow raised_controller 4 = Some ((scenario_row 4 RaisedHand 7)\<lparr>raisedHandStatus := True\<rparr>)
   \<and> raisedHandStatusRemoveAt raised_controller = [(4, 3000)]
   \<and> findRow (removeRow (the (findRow raised_controller 4)) raised_controller) 4 = None
   \<and> raisedHandStatusRemoveAt (removeRow (the (findRow raised_controller 4)) raised_controller)
       = [(4, 3000)]
   \<and> raisedHandStatusRemoveTimer (removeRow (the (findRow raised_controller 4)) raised_controller)
       = Some 3000"
  by code_simp

text \<open>
  Claim C10, amended. \<^verbatim>\<open>removeRow\<close> takes the row out of the list and erases the entry
  of the ssrc of the row from the sounding rows: when the row is registered under its own
  ssrc only, no entry of the sounding rows refers to it afterwards. The raised-hand
  entries and the timer are left as they are. When the timer fires later and the entry of
  the removed row is due, the entry is dropped with no other effect: the controller is
  the one that the same fire gives without that entry.
\<close>

theorem removeRow_cancels_sounding_only:
  assumes "\<forall>k. soundingRowBySsrc c k = Some (peer r) \<longrightarrow> k = ssrc r"
  shows "findRow (removeRow r c) (peer r) = None
     \<and> (\<forall>k. soundingRowBySsrc (removeRow r c) k \<noteq> Some (peer r))
     \<and> raisedHandStatusRemoveAt (removeRow r c) = raisedHandStatusRemoveAt c
     \<and> raisedHandStatusRemoveTimer (removeRow r c) = raisedHandStatusRemoveTimer c
     \<and> (\<forall>es1 at es2 now. raisedHandStatusRemoveAt c = es1 @ (peer r, at) # es2 \<and> at \<le> now \<longrightarrow>
          raisedHandStatusRemoveTimerFired now (removeRow r c)
          = raisedHandStatusRemoveTimerFired now
              ((removeRow r c)\<lparr>raisedHandStatusRemoveAt := es1 @ es2\<rparr>))"
proof -
  have a: "findRow (removeRow r c) (peer r) = None"
    by (simp add: findRow_def removeRow_def find_peerListRemoveRow)
  have b: "\<forall>k. soundingRowBySsrc (removeRow r c) k \<noteq> Some (peer r)"
    using assms by (auto simp: removeRow_def)
  have c: "raisedHandStatusRemoveAt (removeRow r c) = raisedHandStatusRemoveAt c"
    and d: "raisedHandStatusRemoveTimer (removeRow r c) = raisedHandStatusRemoveTimer c"
    by (simp_all add: removeRow_def)
  have e: "\<forall>es1 at es2 now. raisedHandStatusRemoveAt c = es1 @ (peer r, at) # es2 \<and> at \<le> now \<longrightarrow>
          raisedHandStatusRemoveTimerFired now (removeRow r c)
          = raisedHandStatusRemoveTimerFired now
              ((removeRow r c)\<lparr>raisedHandStatusRemoveAt := es1 @ es2\<rparr>)"
    using a c by (auto intro: timerFired_drop_absent)
  from a b c d e show ?thesis by blast
qed

theorem removeRow_cancels_sounding_only_witness:
  "findRow speaker_controller 4 = Some speaker_row
   \<and> soundingRowBySsrc speaker_controller 5 = Some 4
   \<and> findRow (removeRow speaker_row speaker_controller) 4 = None
   \<and> (\<forall>k. soundingRowBySsrc (removeRow speaker_row speaker_controller) k \<noteq> Some 4)
   \<and> raisedHandStatusRemoveAt (removeRow speaker_row speaker_controller) = [(4, 3000)]
   \<and> raisedHandStatusRemoveTimerFired 3000 (removeRow speaker_row speaker_controller)
       = raisedHandStatusRemoveTimerFired 3000
           ((removeRow speaker_row speaker_controller)\<lparr>raisedHandStatusRemoveAt := []\<rparr>)"
proof -
  have p: "peer speaker_row = 4" and s: "ssrc speaker_row = 5"
    by (simp_all add: speaker_row_def scenario_row_def newRow_def)
  have f: "findRow speaker_controller 4 = Some speaker_row"
    by (simp add: findRow_def speaker_controller_def p)
  have m: "soundingRowBySsrc speaker_controller 5 = Some 4"
    by (simp add: speaker_controller_def)
  have es: "raisedHandStatusRemoveAt speaker_controller = [] @ (peer speaker_row, 3000) # []"
    by (simp add: speaker_controller_def p)
  have h: "\<forall>k. soundingRowBySsrc speaker_controller k = Some (peer speaker_row)
      \<longrightarrow> k = ssrc speaker_row"
    by (simp add: speaker_controller_def p s)
  from removeRow_cancels_sounding_only [OF h] es
  have "findRow (removeRow speaker_row speaker_controller) (peer speaker_row) = None"
    and "\<forall>k. soundingRowBySsrc (removeRow speaker_row speaker_controller) k
            \<noteq> Some (peer speaker_row)"
    and "raisedHandStatusRemoveAt (removeRow speaker_row speaker_controller)
            = raisedHandStatusRemoveAt speaker_controller"
    and "raisedHandStatusRemoveTimerFired 3000 (removeRow speaker_row speaker_controller)
          = raisedHandStatusRemoveTimerFired 3000
              ((removeRow speaker_row speaker_controller)\<lparr>raisedHandStatusRemoveAt := [] @ []\<rparr>)"
    by (blast, blast, blast, fastforce)
  with f m es show ?thesis
    by (simp add: p)
qed

subsection \<open>Endpoint exclusivity and the reverse index\<close>

lemma find_SomeD: "find P rs = Some r \<Longrightarrow> r \<in> set rs \<and> P r"
  by (induction rs) (auto split: if_splits)

lemma find_exists: "x \<in> set rs \<Longrightarrow> P x \<Longrightarrow> \<exists>y. find P rs = Some y"
  by (induction rs) auto

lemma exclusive_sem:
  "endpointsExclusive c \<longleftrightarrow>
     (\<forall>x \<in> set (rows c). \<forall>y \<in> set (rows c).
        videoTrackEndpoint x \<noteq> [] \<and> videoTrackEndpoint x = videoTrackEndpoint y
        \<longrightarrow> peer x = peer y)"
  unfolding endpointsExclusive_def list_all_iff by blast

lemma row_unique:
  assumes "distinct (map peer rs)" and "x \<in> set rs" and "y \<in> set rs" and "peer x = peer y"
  shows "x = y"
  using assms by (meson distinct_map inj_onD)

lemma row_unique_address:
  assumes "distinct (map address rs)" and "x \<in> set rs" and "y \<in> set rs"
    and "address x = address y"
  shows "x = y"
  using assms by (meson distinct_map inj_onD)

lemma findRow_unique:
  assumes d: "distinct (map peer (rows c))" and f: "findRow c (peer r) = Some r"
    and x: "x \<in> set (rows c)" and p: "peer x = peer r"
  shows "x = r"
proof -
  from f have "r \<in> set (rows c)"
    unfolding findRow_def by (auto dest: find_SomeD)
  then show ?thesis by (rule row_unique [OF d x _ p])
qed

lemma findRow_peer: "findRow c p = Some r \<Longrightarrow> peer r = p"
  unfolding findRow_def by (auto dest: find_SomeD)

lemma findRow_member:
  assumes d: "distinct (map peer (rows c))" and x: "x \<in> set (rows c)"
  shows "findRow c (peer x) = Some x"
proof -
  from find_exists [OF x, of "\<lambda>y. peer y = peer x"]
  obtain y where y: "find (\<lambda>y. peer y = peer x) (rows c) = Some y"
    by blast
  from find_SomeD [OF y] have "y \<in> set (rows c)" "peer y = peer x"
    by simp_all
  with row_unique [OF d _ x] have "y = x" by blast
  with y show ?thesis by (simp add: findRow_def)
qed

lemma derefRow_member: "derefRow c a = Some r \<Longrightarrow> r \<in> set (rows c) \<and> address r = a"
  unfolding derefRow_def by (auto dest: find_SomeD)

lemma derefRow_findRow:
  assumes "distinct (map peer (rows c))" and "derefRow c a = Some r"
  shows "findRow c (peer r) = Some r"
  using assms derefRow_member [of c a r] by (simp add: findRow_member)

lemma indexExact_D:
  assumes "indexExact c"
  shows "map_of (videoEndpoints c) k = Some a
     \<longleftrightarrow> k \<noteq> [] \<and> (\<exists>x \<in> set (rows c). address x = a \<and> videoTrackEndpoint x = k)"
proof
  assume "map_of (videoEndpoints c) k = Some a"
  then have "(k, a) \<in> set (videoEndpoints c)"
    by (rule map_of_SomeD)
  with assms have k: "k \<noteq> []"
    and f: "map_option address (find (\<lambda>r. videoTrackEndpoint r = k) (rows c)) = Some a"
    unfolding indexExact_def list_all_iff by auto
  from f obtain x where "find (\<lambda>r. videoTrackEndpoint r = k) (rows c) = Some x" "address x = a"
    by auto
  with find_SomeD [of "\<lambda>r. videoTrackEndpoint r = k" "rows c" x] k
  show "k \<noteq> [] \<and> (\<exists>x \<in> set (rows c). address x = a \<and> videoTrackEndpoint x = k)"
    by blast
next
  assume "k \<noteq> [] \<and> (\<exists>x \<in> set (rows c). address x = a \<and> videoTrackEndpoint x = k)"
  then obtain x where x: "x \<in> set (rows c)" "address x = a" "videoTrackEndpoint x = k" "k \<noteq> []"
    by blast
  from assms have "\<forall>r \<in> set (rows c). videoTrackEndpoint r = []
          \<or> map_of (videoEndpoints c) (videoTrackEndpoint r) = Some (address r)"
    unfolding indexExact_def list_all_iff by blast
  with x show "map_of (videoEndpoints c) k = Some a"
    by blast
qed

lemma indexExact_I:
  assumes ex: "endpointsExclusive c"
    and d: "distinct (map peer (rows c))"
    and dk: "distinct (map fst (videoEndpoints c))"
    and sem: "\<And>k a. map_of (videoEndpoints c) k = Some a
       \<longleftrightarrow> k \<noteq> [] \<and> (\<exists>x \<in> set (rows c). address x = a \<and> videoTrackEndpoint x = k)"
  shows "indexExact c"
proof -
  have a: "e \<noteq> [] \<and> map_option address (find (\<lambda>r. videoTrackEndpoint r = e) (rows c)) = Some a"
    if "(e, a) \<in> set (videoEndpoints c)" for e a
  proof -
    from that dk have "map_of (videoEndpoints c) e = Some a"
      by simp
    with sem obtain x where e: "e \<noteq> []" and x: "x \<in> set (rows c)" "address x = a"
      "videoTrackEndpoint x = e"
      by blast
    from find_exists [of x "rows c" "\<lambda>r. videoTrackEndpoint r = e"] x
    obtain y where y: "find (\<lambda>r. videoTrackEndpoint r = e) (rows c) = Some y"
      by blast
    from find_SomeD [OF y] have yin: "y \<in> set (rows c)" and ye: "videoTrackEndpoint y = e"
      by simp_all
    with ex x e have "peer y = peer x"
      unfolding exclusive_sem by metis
    with row_unique [OF d yin x(1)] have "y = x" by simp
    with y e x show ?thesis by simp
  qed
  have b: "videoTrackEndpoint r = []
          \<or> map_of (videoEndpoints c) (videoTrackEndpoint r) = Some (address r)"
    if "r \<in> set (rows c)" for r
    using that sem [of "videoTrackEndpoint r" "address r"] by blast
  from a b dk show ?thesis
    unfolding indexExact_def list_all_iff by blast
qed

lemma map_of_flat_map_remove:
  "map_of (flat_map_remove k m) k' = (if k' = k then None else map_of m k')"
  unfolding flat_map_remove_def by (induction m) auto

lemma map_of_flat_map_emplace:
  "map_of (flat_map_emplace k v m) k'
     = (if k' = k \<and> map_of m k = None then Some v else map_of m k')"
  unfolding flat_map_emplace_def by (auto simp: map_of_append map_add_def split: option.splits)

lemma distinct_flat_map_remove:
  "distinct (map fst m) \<Longrightarrow> distinct (map fst (flat_map_remove k m))"
  unfolding flat_map_remove_def by (induction m) auto

lemma distinct_flat_map_emplace:
  "distinct (map fst m) \<Longrightarrow> distinct (map fst (flat_map_emplace k v m))"
  unfolding flat_map_emplace_def by (auto simp: map_of_eq_None_iff)

lemma setRow_rows:
  assumes "distinct (map peer (rows c))"
  shows "rows (setRowVideoEndpoint r e c)
     = map (\<lambda>x. if peer x = peer r then x\<lparr>videoTrackEndpoint := e\<rparr> else x) (rows c)"
  using assms by (simp add: setRowVideoEndpoint_def Let_def updateFirst_map)

lemma setRow_peers: "map peer (rows (setRowVideoEndpoint r e c)) = map peer (rows c)"
proof -
  have "map peer (updateFirst p f rs) = map peer rs" if "\<And>x. peer (f x) = peer x"
    for p f and rs :: "row list"
    using that by (induction rs) auto
  then show ?thesis
    by (simp add: setRowVideoEndpoint_def Let_def)
qed

lemma setRow_addresses: "map address (rows (setRowVideoEndpoint r e c)) = map address (rows c)"
proof -
  have "map address (updateFirst p f rs) = map address rs" if "\<And>x. address (f x) = address x"
    for p f and rs :: "row list"
    using that by (induction rs) auto
  then show ?thesis
    by (simp add: setRowVideoEndpoint_def Let_def)
qed

lemma setRow_other:
  "largeEndpoint (setRowVideoEndpoint r e c) = largeEndpoint c"
  "menu (setRowVideoEndpoint r e c) = menu c"
  "raisedHandStatusRemoveAt (setRowVideoEndpoint r e c) = raisedHandStatusRemoveAt c"
  "soundingRowBySsrc (setRowVideoEndpoint r e c) = soundingRowBySsrc c"
  by (simp_all add: setRowVideoEndpoint_def Let_def)

text \<open>
  The reverse index after \<^verbatim>\<open>setRowVideoEndpoint\<close>, whatever the index was: when the row
  showed another endpoint, the pair of that endpoint is erased and the new endpoint gets
  the address of the row, unless the index has a pair for the new endpoint already.
\<close>

lemma setRow_index_raw:
  "map_of (videoEndpoints (setRowVideoEndpoint r t c)) k
     = (if videoTrackEndpoint r = t then map_of (videoEndpoints c) k
        else if t \<noteq> [] \<and> k = t \<and> map_of (videoEndpoints c) t = None then Some (address r)
        else if videoTrackEndpoint r \<noteq> [] \<and> k = videoTrackEndpoint r then None
        else map_of (videoEndpoints c) k)"
  by (auto simp: setRowVideoEndpoint_def Let_def map_of_flat_map_remove map_of_flat_map_emplace)

lemma setRow_index:
  assumes ix: "indexExact c" and ex: "endpointsExclusive c"
    and d: "distinct (map peer (rows c))" and f: "findRow c (peer r) = Some r"
    and free: "e = [] \<or> (\<forall>x \<in> set (rows c). videoTrackEndpoint x = e \<longrightarrow> peer x = peer r)"
  shows "map_of (videoEndpoints (setRowVideoEndpoint r e c)) k
     = (if k = [] then None
        else if k = e then Some (address r)
        else if k = videoTrackEndpoint r then None
        else map_of (videoEndpoints c) k)"
proof -
  let ?was = "videoTrackEndpoint r"
  note sem = indexExact_D [OF ix]
  have rin: "r \<in> set (rows c)"
    using f unfolding findRow_def by (auto dest: find_SomeD)
  have empty: "map_of (videoEndpoints c) [] = None"
    using sem [of "[]"] by (cases "map_of (videoEndpoints c) []") auto
  have was: "map_of (videoEndpoints c) ?was = Some (address r)" if "?was \<noteq> []"
    using sem [of ?was "address r"] rin that by blast
  show ?thesis
  proof (cases "?was = e")
    case True
    then show ?thesis
      using empty was by (auto simp: setRow_index_raw)
  next
    case False
    have none: "map_of (videoEndpoints c) e = None"
    proof (cases "map_of (videoEndpoints c) e")
      case None
      then show ?thesis .
    next
      case (Some a)
      with sem [of e a] obtain x where e: "e \<noteq> []" and x: "x \<in> set (rows c)"
        "videoTrackEndpoint x = e"
        by blast
      with free have "peer x = peer r" by blast
      with findRow_unique [OF d f x(1)] have "x = r" by simp
      with x False show ?thesis by simp
    qed
    from False none empty show ?thesis
      by (simp add: setRow_index_raw)
  qed
qed

lemma setRow_distinct_keys:
  "distinct (map fst (videoEndpoints c))
   \<Longrightarrow> distinct (map fst (videoEndpoints (setRowVideoEndpoint r e c)))"
  by (simp add: setRowVideoEndpoint_def Let_def distinct_flat_map_remove
      distinct_flat_map_emplace)

lemma setRow_set_rows:
  assumes d: "distinct (map peer (rows c))" and f: "findRow c (peer r) = Some r"
  shows "x' \<in> set (rows (setRowVideoEndpoint r e c))
     \<longleftrightarrow> x' = r\<lparr>videoTrackEndpoint := e\<rparr>
         \<or> (x' \<in> set (rows c) \<and> peer x' \<noteq> peer r)"
proof -
  have rin: "r \<in> set (rows c)"
    using f unfolding findRow_def by (auto dest: find_SomeD)
  have u: "x = r" if "x \<in> set (rows c)" "peer x = peer r" for x
    using findRow_unique [OF d f that] .
  show ?thesis
    unfolding setRow_rows [OF d] using rin u by (auto simp: image_iff)
qed

lemma setRow_preserves:
  assumes inv: "routingInvariant c" and f: "findRow c (peer r) = Some r"
    and free: "e = [] \<or> (\<forall>x \<in> set (rows c). videoTrackEndpoint x = e \<longrightarrow> peer x = peer r)"
  shows "routingInvariant (setRowVideoEndpoint r e c)"
proof -
  let ?c = "setRowVideoEndpoint r e c"
  from inv have d: "distinct (map peer (rows c))" and da: "distinct (map address (rows c))"
    and ex: "endpointsExclusive c" and ix: "indexExact c"
    by (simp_all add: routingInvariant_def)
  note mem = setRow_set_rows [OF d f, of _ e]
  have rin: "r \<in> set (rows c)"
    using f unfolding findRow_def by (auto dest: find_SomeD)
  have d': "distinct (map peer (rows ?c))"
    using d by (simp add: setRow_peers)
  have da': "distinct (map address (rows ?c))"
    using da by (simp add: setRow_addresses)
  have ex': "endpointsExclusive ?c"
    unfolding exclusive_sem
  proof (intro ballI impI)
    fix x y
    assume x: "x \<in> set (rows ?c)" and y: "y \<in> set (rows ?c)"
      and e: "videoTrackEndpoint x \<noteq> [] \<and> videoTrackEndpoint x = videoTrackEndpoint y"
    from x y consider "peer x = peer r" "peer y = peer r"
      | "x = r\<lparr>videoTrackEndpoint := e\<rparr>" "y \<in> set (rows c)" "peer y \<noteq> peer r"
      | "y = r\<lparr>videoTrackEndpoint := e\<rparr>" "x \<in> set (rows c)" "peer x \<noteq> peer r"
      | "x \<in> set (rows c)" "y \<in> set (rows c)"
      unfolding mem by fastforce
    then show "peer x = peer y"
    proof cases
      case 1 then show ?thesis by simp
    next
      case 2 with e free show ?thesis by auto
    next
      case 3 with e free show ?thesis by auto
    next
      case 4 with e ex show ?thesis unfolding exclusive_sem by blast
    qed
  qed
  have dk: "distinct (map fst (videoEndpoints ?c))"
    using ix by (simp add: indexExact_def setRow_distinct_keys)
  note idx = setRow_index [OF ix ex d f free]
  note sem = indexExact_D [OF ix]
  have ix': "indexExact ?c"
  proof (rule indexExact_I [OF ex' d' dk])
    fix k a
    show "map_of (videoEndpoints ?c) k = Some a
       \<longleftrightarrow> k \<noteq> [] \<and> (\<exists>x \<in> set (rows ?c). address x = a \<and> videoTrackEndpoint x = k)"
    proof (cases "k = []")
      case True
      then show ?thesis by (simp add: idx)
    next
      case ne: False
      show ?thesis
      proof (cases "k = e")
        case True
        have "(\<exists>x \<in> set (rows ?c). address x = a \<and> videoTrackEndpoint x = e) \<longleftrightarrow> a = address r"
        proof
          assume "\<exists>x \<in> set (rows ?c). address x = a \<and> videoTrackEndpoint x = e"
          then obtain x where x: "x \<in> set (rows ?c)" "address x = a" "videoTrackEndpoint x = e"
            by blast
          from x(1) consider "x = r\<lparr>videoTrackEndpoint := e\<rparr>"
            | "x \<in> set (rows c)" "peer x \<noteq> peer r"
            unfolding mem by blast
          then show "a = address r"
          proof cases
            case 1 with x show ?thesis by auto
          next
            case 2 with x free ne True show ?thesis by auto
          qed
        next
          assume "a = address r"
          then have "r\<lparr>videoTrackEndpoint := e\<rparr> \<in> set (rows ?c)
              \<and> address (r\<lparr>videoTrackEndpoint := e\<rparr>) = a
              \<and> videoTrackEndpoint (r\<lparr>videoTrackEndpoint := e\<rparr>) = e"
            unfolding mem by simp
          then show "\<exists>x \<in> set (rows ?c). address x = a \<and> videoTrackEndpoint x = e"
            by blast
        qed
        with True ne show ?thesis by (auto simp: idx)
      next
        case nk: False
        have other: "(\<exists>x \<in> set (rows ?c). address x = a \<and> videoTrackEndpoint x = k)
            \<longleftrightarrow> (\<exists>x \<in> set (rows c). peer x \<noteq> peer r \<and> address x = a \<and> videoTrackEndpoint x = k)"
          unfolding Bex_def mem using nk by auto
        show ?thesis
        proof (cases "k = videoTrackEndpoint r")
          case True
          have "\<not> (\<exists>x \<in> set (rows c). peer x \<noteq> peer r \<and> address x = a \<and> videoTrackEndpoint x = k)"
          proof
            assume "\<exists>x \<in> set (rows c). peer x \<noteq> peer r \<and> address x = a \<and> videoTrackEndpoint x = k"
            then obtain x where x: "x \<in> set (rows c)" "peer x \<noteq> peer r"
              "videoTrackEndpoint x = k"
              by blast
            with ex rin True ne have "peer x = peer r"
              unfolding exclusive_sem by metis
            with x show False by simp
          qed
          with True ne nk other show ?thesis by (simp add: idx)
        next
          case False
          have "(\<exists>x \<in> set (rows c). peer x \<noteq> peer r \<and> address x = a \<and> videoTrackEndpoint x = k)
              \<longleftrightarrow> (\<exists>x \<in> set (rows c). address x = a \<and> videoTrackEndpoint x = k)"
          proof
            assume "\<exists>x \<in> set (rows c). address x = a \<and> videoTrackEndpoint x = k"
            then obtain x where x: "x \<in> set (rows c)" "address x = a" "videoTrackEndpoint x = k"
              by blast
            have "peer x \<noteq> peer r"
            proof
              assume "peer x = peer r"
              with findRow_unique [OF d f x(1)] x False show False by simp
            qed
            with x show "\<exists>x \<in> set (rows c). peer x \<noteq> peer r \<and> address x = a \<and> videoTrackEndpoint x = k"
              by blast
          qed blast
          with False ne nk other sem [of k a] show ?thesis by (simp add: idx)
        qed
      qed
    qed
  qed
  from d' da' ex' ix' show ?thesis
    by (simp add: routingInvariant_def)
qed

lemma setRow_shown:
  assumes "findRow c (peer r) = Some r"
  shows "shownEndpoint (setRowVideoEndpoint r e c) (peer r) = Some e"
proof -
  have "find (\<lambda>x. peer x = p) (updateFirst p (\<lambda>x. x\<lparr>videoTrackEndpoint := e\<rparr>) rs)
      = map_option (\<lambda>x. x\<lparr>videoTrackEndpoint := e\<rparr>) (find (\<lambda>x. peer x = p) rs)"
    for p and rs :: "row list"
    by (induction rs) auto
  with assms show ?thesis
    by (simp add: shownEndpoint_def findRow_def setRowVideoEndpoint_def Let_def)
qed

lemma setRow_shown_other:
  assumes "p \<noteq> peer r"
  shows "shownEndpoint (setRowVideoEndpoint r e c) p = shownEndpoint c p"
proof -
  have "find (\<lambda>x. peer x = p) (updateFirst q (\<lambda>x. x\<lparr>videoTrackEndpoint := e\<rparr>) rs)
      = find (\<lambda>x. peer x = p) rs" if "p \<noteq> q"
    for q and rs :: "row list"
    using that by (induction rs) auto
  with assms show ?thesis
    by (simp add: shownEndpoint_def findRow_def setRowVideoEndpoint_def Let_def)
qed

lemma owned_free:
  assumes own: "rowsOwnEndpoints cl c" and t: "t = [] \<or> ownedBy cl t (peer r)"
  shows "t = [] \<or> (\<forall>x \<in> set (rows c). videoTrackEndpoint x = t \<longrightarrow> peer x = peer r)"
proof (cases "t = []")
  case True
  then show ?thesis by simp
next
  case False
  with t have o: "ownedBy cl t (peer r)" by simp
  have "peer x = peer r" if "x \<in> set (rows c)" "videoTrackEndpoint x = t" for x
  proof -
    from own that False have "ownedBy cl t (peer x)"
      unfolding rowsOwnEndpoints_def list_all_iff by auto
    with o show ?thesis
      unfolding ownedBy_def by (auto split: option.splits)
  qed
  then show ?thesis by blast
qed

lemma setRow_owns:
  assumes own: "rowsOwnEndpoints cl c" and t: "t = [] \<or> ownedBy cl t (peer r)"
  shows "rowsOwnEndpoints cl (setRowVideoEndpoint r t c)"
proof -
  have "list_all (\<lambda>x. videoTrackEndpoint x = [] \<or> ownedBy cl (videoTrackEndpoint x) (peer x))
          (updateFirst (peer r) (\<lambda>x. x\<lparr>videoTrackEndpoint := t\<rparr>) rs)"
    if "list_all (\<lambda>x. videoTrackEndpoint x = [] \<or> ownedBy cl (videoTrackEndpoint x) (peer x)) rs"
    for rs
    using that t by (induction rs) auto
  with own show ?thesis
    by (simp add: rowsOwnEndpoints_def setRowVideoEndpoint_def Let_def)
qed

lemma setRow_state:
  assumes "routingState cl c" and "findRow c p = Some r"
    and "t = [] \<or> ownedBy cl t p"
  shows "routingState cl (setRowVideoEndpoint r t c)"
proof -
  from assms(2) have p: "peer r = p" by (rule findRow_peer)
  with assms have f: "findRow c (peer r) = Some r" and t: "t = [] \<or> ownedBy cl t (peer r)"
    by simp_all
  from assms(1) have inv: "routingInvariant c" and own: "rowsOwnEndpoints cl c"
    by (simp_all add: routingState_def)
  from setRow_preserves [OF inv f owned_free [OF own t]] setRow_owns [OF own t]
  show ?thesis by (simp add: routingState_def)
qed

lemma routingState_large:
  "routingState cl (c\<lparr>largeEndpoint := e\<rparr>) = routingState cl c"
  by (simp add: routingState_def routingInvariant_def rowsOwnEndpoints_def
      endpointsExclusive_def indexExact_def)

lemma restoreUnpinned_state:
  assumes "routingState cl c"
  shows "routingState cl (restoreUnpinned cl c)"
proof -
  have own: "ownedBy cl (largeEndpoint c) (p_peer q)"
    if "findParticipant cl (largeEndpoint c) = Some q" for q
    using that by (simp add: ownedBy_def)
  show ?thesis
    using assms own
    by (auto simp: restoreUnpinned_def Let_def intro!: setRow_state split: option.splits)
qed

lemma avoidPinned_state:
  assumes st: "routingState cl c"
    and h: "\<And>e q. findParticipant cl e = Some q \<Longrightarrow> ownsItsEndpoints cl q"
  shows "routingState cl (avoidPinned cl c)"
proof (cases "findParticipant cl (largeEndpoint c)")
  case None
  with st show ?thesis by (simp add: avoidPinned_def)
next
  case (Some q)
  note o = h [OF Some, unfolded ownsItsEndpoints_def]
  show ?thesis
  proof (cases "findRow c (p_peer q)")
    case None
    with Some st show ?thesis by (simp add: avoidPinned_def)
  next
    case r: (Some r)
    from o have cam: "computeCameraEndpoint cl q = [] \<or> ownedBy cl (computeCameraEndpoint cl q) (p_peer q)"
      and scr: "computeScreenEndpoint cl q = [] \<or> ownedBy cl (computeScreenEndpoint cl q) (p_peer q)"
      by simp_all
    note a = setRow_state [OF st r cam] and b = setRow_state [OF st r scr]
      and e = setRow_state [OF st r, of "[]"]
    from Some r st a b e show ?thesis
      by (simp add: avoidPinned_def Let_def)
  qed
qed

lemma largeChanged_state:
  assumes st: "routingState cl c"
    and h: "\<And>e q. findParticipant cl e = Some q \<Longrightarrow> ownsItsEndpoints cl q"
  shows "routingState cl (videoEndpointLargeChanged cl e c)"
proof -
  have "routingState cl ((restoreUnpinned cl c)\<lparr>largeEndpoint := e\<rparr>)"
    using restoreUnpinned_state [OF st] by (simp add: routingState_large)
  from avoidPinned_state [OF this h] st show ?thesis
    by (simp add: videoEndpointLargeChanged_def)
qed

lemma streamsUp_state:
  assumes st: "routingState cl c" and r: "streamsVideoUpdated cl e True c = Inr c'"
  shows "routingState cl c'"
proof (cases "findParticipant cl e")
  case None
  with st r show ?thesis
    by (auto simp: streamsVideoUpdated_def split: if_splits)
next
  case (Some q)
  then have own: "ownedBy cl e (p_peer q)" by (simp add: ownedBy_def)
  show ?thesis
  proof (cases "findRow c (p_peer q)")
    case None
    with Some st r show ?thesis
      by (auto simp: streamsVideoUpdated_def split: if_splits)
  next
    case row: (Some x)
    have a: "routingState cl (setRowVideoEndpoint x e c)"
      using setRow_state [OF st row] own by blast
    from Some row st r a show ?thesis
      by (auto simp: streamsVideoUpdated_def Let_def split: if_splits)
  qed
qed

lemma streamsDown_state:
  assumes st: "routingState cl c" and r: "streamsVideoUpdated cl e False c = Inr c'"
    and h: "\<And>real q. lookupReal cl = Some real \<Longrightarrow> q \<in> set (participants real)
              \<Longrightarrow> ownsItsEndpoints cl q"
  shows "routingState cl c'"
proof (cases "map_of (videoEndpoints c) e")
  case None
  with st r show ?thesis
    by (auto simp: streamsVideoUpdated_def split: if_splits)
next
  case (Some rowAddress)
  with r obtain real x where real: "lookupReal cl = Some real"
    and dx: "derefRow c rowAddress = Some x"
    by (auto simp: streamsVideoUpdated_def split: if_splits option.splits)
  from st have d: "distinct (map peer (rows c))"
    by (simp add: routingState_def routingInvariant_def)
  note x = derefRow_findRow [OF d dx]
  note e = setRow_state [OF st x, of "[]"]
  show ?thesis
  proof (cases "find (\<lambda>p. p_peer p = peer x) (participants real)")
    case None
    with Some real dx r e show ?thesis
      by (auto simp: streamsVideoUpdated_def split: if_splits)
  next
    case j: (Some j)
    from find_SomeD [OF j] have jin: "j \<in> set (participants real)" and jp: "p_peer j = peer x"
      by simp_all
    note o = h [OF real jin, unfolded ownsItsEndpoints_def, unfolded jp]
    from o have a: "routingState cl (setRowVideoEndpoint x (computeCameraEndpoint cl j) c)"
      and b: "routingState cl (setRowVideoEndpoint x (computeScreenEndpoint cl j) c)"
      using setRow_state [OF st x] by blast+
    from Some real dx j r a b e show ?thesis
      by (auto simp: streamsVideoUpdated_def Let_def split: if_splits)
  qed
qed

text \<open>
  The handlers of the pin change and of the stream updates keep the routing invariant
  whenever the call gives every endpoint to one participant: every endpoint that a row
  shows belongs to the peer of the row (which the handlers keep as well), and the
  participants of the call own their camera and screen endpoints. So the handlers alone
  never leave the reverse index with a pair for a row that is gone.
\<close>

lemma routing_handlers_keep_invariant:
  assumes inv: "routingInvariant c" and own: "rowsOwnEndpoints cl c"
    and h1: "\<forall>e q. findParticipant cl e = Some q \<longrightarrow> ownsItsEndpoints cl q"
    and h2: "\<forall>real. lookupReal cl = Some real \<longrightarrow> list_all (ownsItsEndpoints cl) (participants real)"
  shows "routingInvariant (videoEndpointLargeChanged cl e c)
     \<and> rowsOwnEndpoints cl (videoEndpointLargeChanged cl e c)
     \<and> (\<forall>streams c'. streamsVideoUpdated cl e streams c = Inr c'
          \<longrightarrow> routingInvariant c' \<and> rowsOwnEndpoints cl c')"
proof -
  have st: "routingState cl c"
    using inv own by (simp add: routingState_def)
  have b: "routingState cl (videoEndpointLargeChanged cl e c)"
    using h1 by (intro largeChanged_state [OF st]) blast
  have c: "routingState cl c'" if "streamsVideoUpdated cl e streams c = Inr c'" for streams c'
  proof (cases streams)
    case True
    with that streamsUp_state [OF st] show ?thesis by simp
  next
    case False
    have "ownsItsEndpoints cl q" if "lookupReal cl = Some real" "q \<in> set (participants real)"
      for real q
      using h2 that unfolding list_all_iff by blast
    with False \<open>streamsVideoUpdated cl e streams c = Inr c'\<close>
    show ?thesis by (intro streamsDown_state [OF st]) simp_all
  qed
  from b c show ?thesis
    unfolding routingState_def by blast
qed

text \<open>
  Claim C7: endpoint exclusivity is an invariant, and the reverse index always maps each
  non-empty key to the unique row that shows it. The handlers of the pin change and of
  the stream updates keep it (the lemma above), but \<^verbatim>\<open>removeRow\<close> breaks the part about
  the reverse index: it erases the row from \<^verbatim>\<open>_soundingRowBySsrc\<close> and from the list and
  leaves \<^verbatim>\<open>_videoEndpoints\<close> as it is. When the removed row \<open>r\<close> shows an endpoint, the
  index still has the address of \<open>r\<close> for that endpoint afterwards, no row is at that
  address and no row shows the endpoint: the index is not exact. The handler of a
  participant who leaves the call runs \<^verbatim>\<open>removeRow\<close> for every peer but the local user.
  A stream-down event for the endpoint then follows the pointer to the destroyed row.
  In the example the camera \<open>''cam2''\<close> of the peer 2 starts to stream and is attached to
  the row of the peer 2; the peer 2 leaves the call and the row is removed; the pair of
  \<open>''cam2''\<close> stays. When the peer 2 joins again, its new row is a new object; the next
  stream-up event of \<open>''cam2''\<close> attaches the endpoint to the new row, but \<^verbatim>\<open>emplace\<close>
  keeps the old pair, and the stream-down event still follows the old pointer.
\<close>

theorem removeRow_leaves_dangling_index_entry:
  assumes inv: "routingInvariant c" and f: "findRow c (peer r) = Some r"
    and shown: "videoTrackEndpoint r \<noteq> []"
  shows "videoEndpoints (removeRow r c) = videoEndpoints c
     \<and> map_of (videoEndpoints (removeRow r c)) (videoTrackEndpoint r) = Some (address r)
     \<and> derefRow (removeRow r c) (address r) = None
     \<and> list_all (\<lambda>x. videoTrackEndpoint x \<noteq> videoTrackEndpoint r) (rows (removeRow r c))
     \<and> endpointsExclusive (removeRow r c)
     \<and> \<not> indexExact (removeRow r c)
     \<and> (p_peer was = peer r \<and> joinAs cl \<noteq> peer r \<longrightarrow>
          participantRemoved tnow cl was c = removeRow r c)
     \<and> (videoTrackEndpoint r \<noteq> largeEndpoint c \<and> lookupReal cl \<noteq> None \<longrightarrow>
          streamsVideoUpdated cl (videoTrackEndpoint r) False (removeRow r c) = Inl RowGone)"
proof -
  let ?c = "removeRow r c" and ?e = "videoTrackEndpoint r"
  from inv have d: "distinct (map peer (rows c))" and da: "distinct (map address (rows c))"
    and ex: "endpointsExclusive c" and ix: "indexExact c"
    by (simp_all add: routingInvariant_def)
  have rin: "r \<in> set (rows c)"
    using f unfolding findRow_def by (auto dest: find_SomeD)
  have rows': "rows ?c = filter (\<lambda>x. peer x \<noteq> peer r) (rows c)"
    by (simp add: removeRow_def peerListRemoveRow_def)
  have ve: "videoEndpoints ?c = videoEndpoints c"
    by (simp add: removeRow_def)
  have large: "largeEndpoint ?c = largeEndpoint c"
    by (simp add: removeRow_def)
  have a: "map_of (videoEndpoints ?c) ?e = Some (address r)"
    unfolding ve using indexExact_D [OF ix, of ?e "address r"] rin shown by blast
  have b: "derefRow ?c (address r) = None"
  proof (cases "derefRow ?c (address r)")
    case None
    then show ?thesis .
  next
    case (Some x)
    from derefRow_member [OF Some] have x: "x \<in> set (rows c)" "peer x \<noteq> peer r"
      "address x = address r"
      by (simp_all add: rows')
    from row_unique_address [OF da x(1) rin x(3)] x(2) show ?thesis
      by simp
  qed
  have n: "videoTrackEndpoint x \<noteq> ?e" if "x \<in> set (rows ?c)" for x
  proof
    assume e: "videoTrackEndpoint x = ?e"
    from that have x: "x \<in> set (rows c)" "peer x \<noteq> peer r"
      by (simp_all add: rows')
    from ex rin x(1) e shown have "peer x = peer r"
      unfolding exclusive_sem by metis
    with x(2) show False by simp
  qed
  then have n': "list_all (\<lambda>x. videoTrackEndpoint x \<noteq> ?e) (rows ?c)"
    unfolding list_all_iff by blast
  have ex': "endpointsExclusive ?c"
    using ex unfolding exclusive_sem rows' by auto
  have nix: "\<not> indexExact ?c"
  proof
    assume "indexExact ?c"
    from indexExact_D [OF this, of ?e "address r"] a n show False
      by blast
  qed
  have pr: "p_peer was = peer r \<and> joinAs cl \<noteq> peer r \<longrightarrow>
          participantRemoved tnow cl was c = removeRow r c"
    using f by (auto simp: participantRemoved_def)
  have down: "?e \<noteq> largeEndpoint c \<and> lookupReal cl \<noteq> None \<longrightarrow>
          streamsVideoUpdated cl ?e False ?c = Inl RowGone"
    using a b by (auto simp: streamsVideoUpdated_def large)
  from ve a b n' ex' nix pr down show ?thesis
    by blast
qed

theorem removeRow_leaves_dangling_index_entry_witness:
  "(case streamsVideoUpdated (video_call video_participants [''cam2'']) ''cam2'' True
          (video_controller [] []) of
      Inl _ \<Rightarrow> False
    | Inr c' \<Rightarrow>
        rows c' = rows (video_controller [] ''cam2'')
        \<and> videoEndpoints c' = videoEndpoints (video_controller [] ''cam2''))
   \<and> routingInvariant (video_controller [] ''cam2'')
   \<and> findRow (video_controller [] ''cam2'') 2
       = Some ((scenario_row 2 Inactive 0)\<lparr>videoTrackEndpoint := ''cam2''\<rparr>)
   \<and> participantRemoved 0 (video_call [video_participant 3 ''cam3'' []] [])
         (video_participant 2 ''cam2'' ''scr2'') (video_controller [] ''cam2'')
       = removeRow ((scenario_row 2 Inactive 0)\<lparr>videoTrackEndpoint := ''cam2''\<rparr>)
           (video_controller [] ''cam2'')
   \<and> videoEndpoints (removeRow ((scenario_row 2 Inactive 0)\<lparr>videoTrackEndpoint := ''cam2''\<rparr>)
         (video_controller [] ''cam2'')) = [(''cam2'', 2)]
   \<and> map (\<lambda>x. (peer x, address x, videoTrackEndpoint x))
         (rows (removeRow ((scenario_row 2 Inactive 0)\<lparr>videoTrackEndpoint := ''cam2''\<rparr>)
            (video_controller [] ''cam2''))) = [(1, 1, []), (3, 3, [])]
   \<and> streamsVideoUpdated (video_call [video_participant 3 ''cam3'' []] []) ''cam2'' False
         (removeRow ((scenario_row 2 Inactive 0)\<lparr>videoTrackEndpoint := ''cam2''\<rparr>)
            (video_controller [] ''cam2'')) = Inl RowGone
   \<and> map (\<lambda>x. (peer x, address x, videoTrackEndpoint x))
         (rows (updateRow 0 (video_call video_participants [''cam2'']) None
            (video_participant 2 ''cam2'' ''scr2'')
            (removeRow ((scenario_row 2 Inactive 0)\<lparr>videoTrackEndpoint := ''cam2''\<rparr>)
               (video_controller [] ''cam2'')))) = [(1, 1, []), (3, 3, []), (2, 5, [])]
   \<and> (case streamsVideoUpdated (video_call video_participants [''cam2'']) ''cam2'' True
            (updateRow 0 (video_call video_participants [''cam2'']) None
               (video_participant 2 ''cam2'' ''scr2'')
               (removeRow ((scenario_row 2 Inactive 0)\<lparr>videoTrackEndpoint := ''cam2''\<rparr>)
                  (video_controller [] ''cam2''))) of
         Inl _ \<Rightarrow> False
       | Inr c' \<Rightarrow>
           shownEndpoint c' 2 = Some ''cam2''
           \<and> videoEndpoints c' = [(''cam2'', 2)]
           \<and> streamsVideoUpdated (video_call video_participants []) ''cam2'' False c'
               = Inl RowGone)"
proof -
  let ?c = "video_controller [] ''cam2''"
  let ?r = "(scenario_row 2 Inactive 0)\<lparr>videoTrackEndpoint := ''cam2''\<rparr>"
  let ?gone = "video_call [video_participant 3 ''cam3'' []] []"
  let ?was = "video_participant 2 ''cam2'' ''scr2''"
  let ?cl = "video_call video_participants [''cam2'']"
  have p: "peer ?r = 2" and a: "address ?r = 2" and e: "videoTrackEndpoint ?r = ''cam2''"
    by (simp_all add: scenario_row_def newRow_def)
  have inv: "routingInvariant ?c"
    by code_simp
  have f: "findRow ?c (peer ?r) = Some ?r"
    unfolding p by code_simp
  have shown: "videoTrackEndpoint ?r \<noteq> []"
    by (simp add: e)
  have pre1: "p_peer ?was = peer ?r \<and> joinAs ?gone \<noteq> peer ?r"
    by (simp add: p video_participant_def video_call_def)
  have pre2: "videoTrackEndpoint ?r \<noteq> largeEndpoint ?c \<and> lookupReal ?gone \<noteq> None"
    by (simp add: e video_controller_def video_call_def)
  from removeRow_leaves_dangling_index_entry
    [OF inv f shown, where was = ?was and cl = ?gone and tnow = 0] pre1 pre2
  have left: "participantRemoved 0 ?gone ?was ?c = removeRow ?r ?c"
    and down: "streamsVideoUpdated ?gone (videoTrackEndpoint ?r) False (removeRow ?r ?c) = Inl RowGone"
    by blast+
  have ve: "videoEndpoints (removeRow ?r ?c) = [(''cam2'', 2)]"
    by code_simp
  have rs: "map (\<lambda>x. (peer x, address x, videoTrackEndpoint x)) (rows (removeRow ?r ?c))
      = [(1, 1, []), (3, 3, [])]"
    by code_simp
  have rejoined: "map (\<lambda>x. (peer x, address x, videoTrackEndpoint x))
         (rows (updateRow 0 ?cl None ?was (removeRow ?r ?c))) = [(1, 1, []), (3, 3, []), (2, 5, [])]"
    by code_simp
  have again: "case streamsVideoUpdated ?cl ''cam2'' True
            (updateRow 0 ?cl None ?was (removeRow ?r ?c)) of
         Inl _ \<Rightarrow> False
       | Inr c' \<Rightarrow>
           shownEndpoint c' 2 = Some ''cam2''
           \<and> videoEndpoints c' = [(''cam2'', 2)]
           \<and> streamsVideoUpdated (video_call video_participants []) ''cam2'' False c'
               = Inl RowGone"
    by code_simp
  have up: "case streamsVideoUpdated ?cl ''cam2'' True (video_controller [] []) of
      Inl _ \<Rightarrow> False
    | Inr c' \<Rightarrow>
        rows c' = rows ?c \<and> videoEndpoints c' = videoEndpoints ?c"
    by code_simp
  from up inv f left ve rs down rejoined again show ?thesis
    unfolding p e by blast
qed

subsection \<open>Stream-up\<close>

lemma findParticipant_nonempty: "findParticipant cl e = Some q \<Longrightarrow> e \<noteq> []"
  by (auto simp: findParticipant_def split: if_splits)

lemma shown_large: "shownEndpoint (c\<lparr>largeEndpoint := e\<rparr>) p = shownEndpoint c p"
  by (simp add: shownEndpoint_def findRow_def)

lemma findRow_large: "findRow (c\<lparr>largeEndpoint := e\<rparr>) p = findRow c p"
  by (simp add: findRow_def)

lemma shown_findRow: "findRow c p = Some r \<Longrightarrow> shownEndpoint c p = Some (videoTrackEndpoint r)"
  by (simp add: shownEndpoint_def)

lemma setRow_shown_at:
  "findRow c p = Some r \<Longrightarrow> shownEndpoint (setRowVideoEndpoint r t c) p = Some t"
  using setRow_shown [of c r t] findRow_peer [of c p r] by simp

lemma setRow_shown_else:
  "findRow c p = Some r \<Longrightarrow> p' \<noteq> p \<Longrightarrow>
   shownEndpoint (setRowVideoEndpoint r t c) p' = shownEndpoint c p'"
  using setRow_shown_other [of p' r t c] findRow_peer [of c p r] by simp

lemma streamUp_camera:
  assumes "findRow c (p_peer q) = Some r"
    and "findParticipant cl (computeCameraEndpoint cl q) = Some q"
    and "computeCameraEndpoint cl q \<noteq> largeEndpoint c"
    and "computeCameraEndpoint cl q \<noteq> computeScreenEndpoint cl q"
  shows "streamsVideoUpdated cl (computeCameraEndpoint cl q) True c
     = Inr (if \<not> streamsVideo cl (computeScreenEndpoint cl q)
               \<or> largeEndpoint c = computeScreenEndpoint cl q
            then setRowVideoEndpoint r (computeCameraEndpoint cl q) c else c)"
  using assms by (simp add: streamsVideoUpdated_def Let_def)

lemma streamUp_screen:
  assumes "findRow c (p_peer q) = Some r"
    and "findParticipant cl (computeScreenEndpoint cl q) = Some q"
    and "computeScreenEndpoint cl q \<noteq> largeEndpoint c"
  shows "streamsVideoUpdated cl (computeScreenEndpoint cl q) True c
     = Inr (setRowVideoEndpoint r (computeScreenEndpoint cl q) c)"
  using assms by (auto simp: streamsVideoUpdated_def Let_def)

lemma streamsVideoUpdated_frame:
  assumes "streamsVideoUpdated cl e s c = Inr c'"
  shows "map peer (rows c') = map peer (rows c) \<and> largeEndpoint c' = largeEndpoint c"
  using assms
  by (auto simp: streamsVideoUpdated_def Let_def setRow_peers setRow_other
      split: if_splits option.splits)

lemma findRow_exists:
  assumes "map peer (rows c') = map peer (rows c)" and "findRow c p = Some r"
  shows "\<exists>r'. findRow c' p = Some r'"
proof -
  from assms(2) have "p \<in> peer ` set (rows c)"
    unfolding findRow_def by (auto dest: find_SomeD)
  then have "p \<in> set (map peer (rows c'))"
    using assms(1) by simp
  then obtain x where "x \<in> set (rows c')" "peer x = p"
    by auto
  from find_exists [OF this(1), of "\<lambda>x. peer x = p"] this(2) show ?thesis
    by (simp add: findRow_def)
qed

text \<open>
  Claim C5. A stream-up event for an endpoint that is not the pinned one, for a
  participant \<open>q\<close> who has a row: when the endpoint is the camera of \<open>q\<close> (and not also
  its screen), the camera is attached exactly when the screen of \<open>q\<close> is not live or the
  pinned endpoint is that screen, and nothing changes otherwise; when the endpoint is the
  screen of \<open>q\<close>, the screen is attached. Attaching means that the row of \<open>q\<close> shows the
  endpoint afterwards and the other rows show what they showed. Consequently, when the
  camera and the screen of \<open>q\<close> are both live and neither is pinned, the row shows the
  screen, in whichever order the two stream-up events arrive: after the event of the
  screen the row shows the screen and the event of the camera changes nothing; after the
  event of the camera, whatever it did, the event of the screen attaches the screen.
\<close>

theorem streamUp_routing:
  assumes fr: "findRow c (p_peer q) = Some r"
  shows "(findParticipant cl (computeCameraEndpoint cl q) = Some q
          \<and> computeCameraEndpoint cl q \<noteq> largeEndpoint c
          \<and> computeCameraEndpoint cl q \<noteq> computeScreenEndpoint cl q \<longrightarrow>
          streamsVideoUpdated cl (computeCameraEndpoint cl q) True c
            = Inr (if \<not> streamsVideo cl (computeScreenEndpoint cl q)
                      \<or> largeEndpoint c = computeScreenEndpoint cl q
                   then setRowVideoEndpoint r (computeCameraEndpoint cl q) c else c))
     \<and> (findParticipant cl (computeScreenEndpoint cl q) = Some q
          \<and> computeScreenEndpoint cl q \<noteq> largeEndpoint c \<longrightarrow>
          streamsVideoUpdated cl (computeScreenEndpoint cl q) True c
            = Inr (setRowVideoEndpoint r (computeScreenEndpoint cl q) c))
     \<and> (\<forall>t. shownEndpoint (setRowVideoEndpoint r t c) (p_peer q) = Some t
            \<and> (\<forall>p. p \<noteq> p_peer q \<longrightarrow>
                  shownEndpoint (setRowVideoEndpoint r t c) p = shownEndpoint c p))
     \<and> (findParticipant cl (computeCameraEndpoint cl q) = Some q
          \<and> findParticipant cl (computeScreenEndpoint cl q) = Some q
          \<and> computeCameraEndpoint cl q \<noteq> computeScreenEndpoint cl q
          \<and> streamsVideo cl (computeCameraEndpoint cl q)
          \<and> streamsVideo cl (computeScreenEndpoint cl q)
          \<and> largeEndpoint c \<noteq> computeCameraEndpoint cl q
          \<and> largeEndpoint c \<noteq> computeScreenEndpoint cl q \<longrightarrow>
          (\<exists>c1. streamsVideoUpdated cl (computeScreenEndpoint cl q) True c = Inr c1
                \<and> shownEndpoint c1 (p_peer q) = Some (computeScreenEndpoint cl q)
                \<and> streamsVideoUpdated cl (computeCameraEndpoint cl q) True c1 = Inr c1)
          \<and> (\<forall>cl0 c1. streamsVideoUpdated cl0 (computeCameraEndpoint cl q) True c = Inr c1 \<longrightarrow>
                (\<exists>c2. streamsVideoUpdated cl (computeScreenEndpoint cl q) True c1 = Inr c2
                      \<and> shownEndpoint c2 (p_peer q) = Some (computeScreenEndpoint cl q))))"
proof -
  let ?cam = "computeCameraEndpoint cl q" and ?scr = "computeScreenEndpoint cl q"
  have a: "findParticipant cl ?cam = Some q \<and> ?cam \<noteq> largeEndpoint c \<and> ?cam \<noteq> ?scr \<longrightarrow>
          streamsVideoUpdated cl ?cam True c
            = Inr (if \<not> streamsVideo cl ?scr \<or> largeEndpoint c = ?scr
                   then setRowVideoEndpoint r ?cam c else c)"
    using streamUp_camera [OF fr] by blast
  have b: "findParticipant cl ?scr = Some q \<and> ?scr \<noteq> largeEndpoint c \<longrightarrow>
          streamsVideoUpdated cl ?scr True c = Inr (setRowVideoEndpoint r ?scr c)"
    using streamUp_screen [OF fr] by blast
  have s: "\<forall>t. shownEndpoint (setRowVideoEndpoint r t c) (p_peer q) = Some t
            \<and> (\<forall>p. p \<noteq> p_peer q \<longrightarrow>
                  shownEndpoint (setRowVideoEndpoint r t c) p = shownEndpoint c p)"
    using setRow_shown_at [OF fr] setRow_shown_else [OF fr] by blast
  have d: "(\<exists>c1. streamsVideoUpdated cl ?scr True c = Inr c1
                \<and> shownEndpoint c1 (p_peer q) = Some ?scr
                \<and> streamsVideoUpdated cl ?cam True c1 = Inr c1)
          \<and> (\<forall>cl0 c1. streamsVideoUpdated cl0 ?cam True c = Inr c1 \<longrightarrow>
                (\<exists>c2. streamsVideoUpdated cl ?scr True c1 = Inr c2
                      \<and> shownEndpoint c2 (p_peer q) = Some ?scr))"
    if pc: "findParticipant cl ?cam = Some q" and ps: "findParticipant cl ?scr = Some q"
      and ne: "?cam \<noteq> ?scr" and lc: "streamsVideo cl ?cam" and ls: "streamsVideo cl ?scr"
      and nc: "largeEndpoint c \<noteq> ?cam" and ns: "largeEndpoint c \<noteq> ?scr"
  proof
    let ?c1 = "setRowVideoEndpoint r ?scr c"
    have 1: "streamsVideoUpdated cl ?scr True c = Inr ?c1"
      using streamUp_screen [OF fr ps] ns by simp
    have 2: "shownEndpoint ?c1 (p_peer q) = Some ?scr"
      by (rule setRow_shown_at [OF fr])
    from 2 obtain r1 where fr1: "findRow ?c1 (p_peer q) = Some r1"
      by (auto simp: shownEndpoint_def)
    have 3: "streamsVideoUpdated cl ?cam True ?c1 = Inr ?c1"
      using streamUp_camera [OF fr1 pc _ ne] nc ns ls by (simp add: setRow_other)
    from 1 2 3 show "\<exists>c1. streamsVideoUpdated cl ?scr True c = Inr c1
                \<and> shownEndpoint c1 (p_peer q) = Some ?scr
                \<and> streamsVideoUpdated cl ?cam True c1 = Inr c1"
      by blast
  next
    show "\<forall>cl0 c1. streamsVideoUpdated cl0 ?cam True c = Inr c1 \<longrightarrow>
                (\<exists>c2. streamsVideoUpdated cl ?scr True c1 = Inr c2
                      \<and> shownEndpoint c2 (p_peer q) = Some ?scr)"
    proof (intro allI impI)
      fix cl0 c1
      assume u: "streamsVideoUpdated cl0 ?cam True c = Inr c1"
      from streamsVideoUpdated_frame [OF u] have pe: "map peer (rows c1) = map peer (rows c)"
        and la: "largeEndpoint c1 = largeEndpoint c"
        by simp_all
      from findRow_exists [OF pe fr] obtain r1 where fr1: "findRow c1 (p_peer q) = Some r1"
        by blast
      have "streamsVideoUpdated cl ?scr True c1 = Inr (setRowVideoEndpoint r1 ?scr c1)"
        using streamUp_screen [OF fr1 ps] ns la by simp
      moreover have "shownEndpoint (setRowVideoEndpoint r1 ?scr c1) (p_peer q) = Some ?scr"
        by (rule setRow_shown_at [OF fr1])
      ultimately show "\<exists>c2. streamsVideoUpdated cl ?scr True c1 = Inr c2
                      \<and> shownEndpoint c2 (p_peer q) = Some ?scr"
        by blast
    qed
  qed
  from a b s d show ?thesis
    by blast
qed

theorem streamUp_routing_witness:
  "findRow (video_controller [] ''cam2'') 2
     = Some ((scenario_row 2 Inactive 0)\<lparr>videoTrackEndpoint := ''cam2''\<rparr>)
   \<and> (\<exists>c1. streamsVideoUpdated (video_call video_participants [''cam2'', ''scr2'']) ''scr2'' True
               (video_controller [] ''cam2'') = Inr c1
            \<and> shownEndpoint c1 2 = Some ''scr2''
            \<and> streamsVideoUpdated (video_call video_participants [''cam2'', ''scr2'']) ''cam2'' True c1
                = Inr c1)"
proof -
  let ?cl = "video_call video_participants [''cam2'', ''scr2'']"
  let ?c = "video_controller [] ''cam2''"
  let ?q = "video_participant 2 ''cam2'' ''scr2''"
  let ?r = "(scenario_row 2 Inactive 0)\<lparr>videoTrackEndpoint := ''cam2''\<rparr>"
  have p: "p_peer ?q = 2"
    by (simp add: video_participant_def)
  have fr: "findRow ?c (p_peer ?q) = Some ?r"
    unfolding p by code_simp
  have cam: "computeCameraEndpoint ?cl ?q = ''cam2''" and scr: "computeScreenEndpoint ?cl ?q = ''scr2''"
    by code_simp+
  have pc: "findParticipant ?cl ''cam2'' = Some ?q" and ps: "findParticipant ?cl ''scr2'' = Some ?q"
    by code_simp+
  have live: "streamsVideo ?cl ''cam2''" "streamsVideo ?cl ''scr2''"
    by code_simp+
  have large: "largeEndpoint ?c = []"
    by code_simp
  have pre: "findParticipant ?cl (computeCameraEndpoint ?cl ?q) = Some ?q
      \<and> findParticipant ?cl (computeScreenEndpoint ?cl ?q) = Some ?q
      \<and> computeCameraEndpoint ?cl ?q \<noteq> computeScreenEndpoint ?cl ?q
      \<and> streamsVideo ?cl (computeCameraEndpoint ?cl ?q)
      \<and> streamsVideo ?cl (computeScreenEndpoint ?cl ?q)
      \<and> largeEndpoint ?c \<noteq> computeCameraEndpoint ?cl ?q
      \<and> largeEndpoint ?c \<noteq> computeScreenEndpoint ?cl ?q"
    unfolding cam scr using pc ps live large by simp
  from streamUp_routing [OF fr, of ?cl] pre
  have "\<exists>c1. streamsVideoUpdated ?cl (computeScreenEndpoint ?cl ?q) True ?c = Inr c1
            \<and> shownEndpoint c1 (p_peer ?q) = Some (computeScreenEndpoint ?cl ?q)
            \<and> streamsVideoUpdated ?cl (computeCameraEndpoint ?cl ?q) True c1 = Inr c1"
    by blast
  then have "\<exists>c1. streamsVideoUpdated ?cl ''scr2'' True ?c = Inr c1
            \<and> shownEndpoint c1 2 = Some ''scr2''
            \<and> streamsVideoUpdated ?cl ''cam2'' True c1 = Inr c1"
    unfolding cam scr p .
  with fr show ?thesis
    unfolding p by blast
qed

subsection \<open>Stream-down\<close>






subsection \<open>Pin change\<close>

lemma restoreUnpinned_shown:
  assumes q: "findParticipant cl (largeEndpoint c) = Some q" and fr: "findRow c (p_peer q) = Some r"
  shows "shownEndpoint (restoreUnpinned cl c) (p_peer q)
       = Some (if streamsVideo cl (largeEndpoint c)
                  \<and> (videoTrackEndpoint r = []
                      \<or> (computeScreenEndpoint cl q = largeEndpoint c
                          \<and> computeCameraEndpoint cl q = videoTrackEndpoint r))
               then largeEndpoint c else videoTrackEndpoint r)
     \<and> (\<forall>p. p \<noteq> p_peer q \<longrightarrow> shownEndpoint (restoreUnpinned cl c) p = shownEndpoint c p)"
  using q fr setRow_shown_at [OF fr] setRow_shown_else [OF fr] shown_findRow [OF fr]
  by (simp add: restoreUnpinned_def Let_def)

lemma restoreUnpinned_none:
  assumes "\<forall>q. findParticipant cl (largeEndpoint c) = Some q \<longrightarrow> findRow c (p_peer q) = None"
  shows "restoreUnpinned cl c = c"
  using assms by (auto simp: restoreUnpinned_def split: option.splits)

lemma avoidPinned_shown:
  assumes q: "findParticipant cl (largeEndpoint c1) = Some q"
    and fr: "findRow c1 (p_peer q) = Some r"
  shows "shownEndpoint (avoidPinned cl c1) (p_peer q)
       = Some (if videoTrackEndpoint r = largeEndpoint c1
               then insteadOfPinned cl (largeEndpoint c1) q else videoTrackEndpoint r)
     \<and> (\<forall>p. p \<noteq> p_peer q \<longrightarrow> shownEndpoint (avoidPinned cl c1) p = shownEndpoint c1 p)"
  using q fr setRow_shown_at [OF fr] setRow_shown_else [OF fr] shown_findRow [OF fr]
  by (simp add: avoidPinned_def insteadOfPinned_def Let_def)

lemma avoidPinned_none:
  assumes "\<forall>q. findParticipant cl (largeEndpoint c1) = Some q \<longrightarrow> findRow c1 (p_peer q) = None"
  shows "avoidPinned cl c1 = c1"
  using assms by (auto simp: avoidPinned_def split: option.splits)

lemma avoidPinned_large: "largeEndpoint (avoidPinned cl c1) = largeEndpoint c1"
  by (auto simp: avoidPinned_def Let_def setRow_other split: option.splits)

lemma insteadOfPinned_differs:
  assumes "findParticipant cl e = Some q"
    and "computeCameraEndpoint cl q \<noteq> computeScreenEndpoint cl q"
  shows "insteadOfPinned cl e q \<noteq> e"
  using assms findParticipant_nonempty [OF assms(1)]
  by (auto simp: insteadOfPinned_def)

text \<open>
  Claim C4, as stated, fails: the rows of the list show the endpoints that are not
  pinned. With the camera \<open>''cam2''\<close> live and shown by the row of the peer 2, pinning
  \<open>''cam2''\<close> detaches the row (it is not left alone); with the row showing nothing,
  pinning \<open>''cam2''\<close> attaches nothing; and with the live screen \<open>''scr2''\<close> pinned and the
  row showing \<open>''cam2''\<close>, unpinning attaches \<open>''scr2''\<close>, the old pinned endpoint, to
  the row.
\<close>

theorem pin_change_counterexample:
  "shownEndpoint (video_controller [] ''cam2'') 2 = Some ''cam2''
   \<and> shownEndpoint (videoEndpointLargeChanged (video_call video_participants [''cam2''])
        ''cam2'' (video_controller [] ''cam2'')) 2 = Some []
   \<and> shownEndpoint (video_controller [] []) 2 = Some []
   \<and> shownEndpoint (videoEndpointLargeChanged (video_call video_participants [''cam2''])
        ''cam2'' (video_controller [] [])) 2 = Some []
   \<and> shownEndpoint (video_controller ''scr2'' ''cam2'') 2 = Some ''cam2''
   \<and> shownEndpoint (videoEndpointLargeChanged (video_call video_participants [''cam2'', ''scr2''])
        [] (video_controller ''scr2'' ''cam2'')) 2 = Some ''scr2''"
  by code_simp

text \<open>
  Claim C4, amended. A pin change from the old endpoint to a different endpoint \<open>e\<close>
  runs two steps and leaves \<open>e\<close> pinned. First, when the old endpoint streams and its
  participant has a row that shows nothing, or that shows the camera of the participant
  while the old endpoint is its screen, the old endpoint is attached to that row;
  otherwise the row keeps what it shows; no other row changes. Then, for the participant
  that owns \<open>e\<close>: when its row does not show \<open>e\<close> nothing happens; when its row shows
  \<open>e\<close>, the row gets the screen when \<open>e\<close> is the camera and the screen is live, the
  camera when \<open>e\<close> is the screen and the camera is live, and is detached otherwise; no
  other row changes. So the row of the participant that owns \<open>e\<close> does not show
  \<open>e\<close> afterwards, when the camera and the screen endpoint of that participant
  differ.
\<close>

theorem pin_change_routing:
  assumes ne: "e \<noteq> largeEndpoint c"
  shows "videoEndpointLargeChanged cl e c
       = avoidPinned cl ((restoreUnpinned cl c)\<lparr>largeEndpoint := e\<rparr>)
     \<and> largeEndpoint (videoEndpointLargeChanged cl e c) = e
     \<and> (\<forall>q r. findParticipant cl (largeEndpoint c) = Some q \<and> findRow c (p_peer q) = Some r \<longrightarrow>
          shownEndpoint (restoreUnpinned cl c) (p_peer q)
            = Some (if streamsVideo cl (largeEndpoint c)
                       \<and> (videoTrackEndpoint r = []
                           \<or> (computeScreenEndpoint cl q = largeEndpoint c
                               \<and> computeCameraEndpoint cl q = videoTrackEndpoint r))
                    then largeEndpoint c else videoTrackEndpoint r)
          \<and> (\<forall>p. p \<noteq> p_peer q \<longrightarrow> shownEndpoint (restoreUnpinned cl c) p = shownEndpoint c p))
     \<and> ((\<forall>q. findParticipant cl (largeEndpoint c) = Some q \<longrightarrow> findRow c (p_peer q) = None)
          \<longrightarrow> restoreUnpinned cl c = c)
     \<and> (\<forall>c1 q r. largeEndpoint c1 = e \<and> findParticipant cl e = Some q
            \<and> findRow c1 (p_peer q) = Some r \<longrightarrow>
          shownEndpoint (avoidPinned cl c1) (p_peer q)
            = Some (if videoTrackEndpoint r = e then insteadOfPinned cl e q
                    else videoTrackEndpoint r)
          \<and> (\<forall>p. p \<noteq> p_peer q \<longrightarrow> shownEndpoint (avoidPinned cl c1) p = shownEndpoint c1 p))
     \<and> (\<forall>c1. largeEndpoint c1 = e
            \<and> (\<forall>q. findParticipant cl e = Some q \<longrightarrow> findRow c1 (p_peer q) = None)
          \<longrightarrow> avoidPinned cl c1 = c1)
     \<and> (\<forall>q. findParticipant cl e = Some q
            \<and> computeCameraEndpoint cl q \<noteq> computeScreenEndpoint cl q \<longrightarrow>
          shownEndpoint (videoEndpointLargeChanged cl e c) (p_peer q) \<noteq> Some e)"
proof -
  let ?c1 = "(restoreUnpinned cl c)\<lparr>largeEndpoint := e\<rparr>"
  have run: "videoEndpointLargeChanged cl e c = avoidPinned cl ?c1"
    using ne by (auto simp: videoEndpointLargeChanged_def)
  have large: "largeEndpoint (videoEndpointLargeChanged cl e c) = e"
    by (simp add: run avoidPinned_large)
  have p1: "\<forall>q r. findParticipant cl (largeEndpoint c) = Some q \<and> findRow c (p_peer q) = Some r \<longrightarrow>
          shownEndpoint (restoreUnpinned cl c) (p_peer q)
            = Some (if streamsVideo cl (largeEndpoint c)
                       \<and> (videoTrackEndpoint r = []
                           \<or> (computeScreenEndpoint cl q = largeEndpoint c
                               \<and> computeCameraEndpoint cl q = videoTrackEndpoint r))
                    then largeEndpoint c else videoTrackEndpoint r)
          \<and> (\<forall>p. p \<noteq> p_peer q \<longrightarrow> shownEndpoint (restoreUnpinned cl c) p = shownEndpoint c p)"
    using restoreUnpinned_shown [of cl c] by blast
  have p1n: "(\<forall>q. findParticipant cl (largeEndpoint c) = Some q \<longrightarrow> findRow c (p_peer q) = None)
          \<longrightarrow> restoreUnpinned cl c = c"
    using restoreUnpinned_none [of cl c] by blast
  have p2: "\<forall>c1 q r. largeEndpoint c1 = e \<and> findParticipant cl e = Some q
            \<and> findRow c1 (p_peer q) = Some r \<longrightarrow>
          shownEndpoint (avoidPinned cl c1) (p_peer q)
            = Some (if videoTrackEndpoint r = e then insteadOfPinned cl e q
                    else videoTrackEndpoint r)
          \<and> (\<forall>p. p \<noteq> p_peer q \<longrightarrow> shownEndpoint (avoidPinned cl c1) p = shownEndpoint c1 p)"
  proof (intro allI impI)
    fix c1 q r
    assume a: "largeEndpoint c1 = e \<and> findParticipant cl e = Some q
            \<and> findRow c1 (p_peer q) = Some r"
    then have "findParticipant cl (largeEndpoint c1) = Some q" "findRow c1 (p_peer q) = Some r"
      by simp_all
    from avoidPinned_shown [OF this] a
    show "shownEndpoint (avoidPinned cl c1) (p_peer q)
            = Some (if videoTrackEndpoint r = e then insteadOfPinned cl e q
                    else videoTrackEndpoint r)
          \<and> (\<forall>p. p \<noteq> p_peer q \<longrightarrow> shownEndpoint (avoidPinned cl c1) p = shownEndpoint c1 p)"
      by simp
  qed
  have p2n: "\<forall>c1. largeEndpoint c1 = e
            \<and> (\<forall>q. findParticipant cl e = Some q \<longrightarrow> findRow c1 (p_peer q) = None)
          \<longrightarrow> avoidPinned cl c1 = c1"
    using avoidPinned_none [of cl] by blast
  have o1: "\<forall>q. findParticipant cl e = Some q
            \<and> computeCameraEndpoint cl q \<noteq> computeScreenEndpoint cl q \<longrightarrow>
          shownEndpoint (videoEndpointLargeChanged cl e c) (p_peer q) \<noteq> Some e"
  proof (intro allI impI)
    fix q
    assume a: "findParticipant cl e = Some q
            \<and> computeCameraEndpoint cl q \<noteq> computeScreenEndpoint cl q"
    then have fq: "findParticipant cl e = Some q"
      and nd: "computeCameraEndpoint cl q \<noteq> computeScreenEndpoint cl q"
      by simp_all
    have l1: "largeEndpoint ?c1 = e" by simp
    show "shownEndpoint (videoEndpointLargeChanged cl e c) (p_peer q) \<noteq> Some e"
    proof (cases "findRow ?c1 (p_peer q)")
      case None
      have "findRow (avoidPinned cl ?c1) (p_peer q) = None"
        using None fq by (simp add: avoidPinned_def)
      then show ?thesis
        by (simp add: run shownEndpoint_def)
    next
      case (Some r)
      from p2 l1 fq Some
      have "shownEndpoint (avoidPinned cl ?c1) (p_peer q)
            = Some (if videoTrackEndpoint r = e then insteadOfPinned cl e q
                    else videoTrackEndpoint r)"
        by blast
      with insteadOfPinned_differs [OF fq nd] show ?thesis
        by (simp add: run)
    qed
  qed
  from run large p1 p1n p2 p2n o1 show ?thesis
    by blast
qed

theorem pin_change_routing_witness:
  "''cam2'' \<noteq> largeEndpoint (video_controller [] ''cam2'')
   \<and> largeEndpoint (videoEndpointLargeChanged (video_call video_participants [''cam2''])
        ''cam2'' (video_controller [] ''cam2'')) = ''cam2''
   \<and> shownEndpoint (videoEndpointLargeChanged (video_call video_participants [''cam2''])
        ''cam2'' (video_controller [] ''cam2'')) 2 \<noteq> Some ''cam2''"
proof -
  let ?cl = "video_call video_participants [''cam2'']"
  let ?c = "video_controller [] ''cam2''"
  let ?q = "video_participant 2 ''cam2'' ''scr2''"
  have ne: "''cam2'' \<noteq> largeEndpoint ?c"
    by code_simp
  have fq: "findParticipant ?cl ''cam2'' = Some ?q"
    by code_simp
  have nd: "computeCameraEndpoint ?cl ?q \<noteq> computeScreenEndpoint ?cl ?q"
    by code_simp
  have p: "p_peer ?q = 2"
    by (simp add: video_participant_def)
  from pin_change_routing [OF ne, of ?cl] fq nd
  have "largeEndpoint (videoEndpointLargeChanged ?cl ''cam2'' ?c) = ''cam2''"
    and "shownEndpoint (videoEndpointLargeChanged ?cl ''cam2'' ?c) (p_peer ?q) \<noteq> Some ''cam2''"
    by blast+
  with ne show ?thesis
    unfolding p by blast
qed

end
